theory Spec2Isabelle
  imports Main
begin

section \<open>Python values\<close>

text \<open>
  Exceptions are values. The constructors stand for the classes the program raises or
  receives from its libraries; every one of them is a subclass of \<open>Exception\<close>, which is
  what the handlers \<open>except Exception\<close> of the orchestrator and the retry decorator of
  \<open>generate_report\<close> catch. \<open>HTTPError\<close> is the \<open>httpx.HTTPError\<close> family
  (\<open>httpx.TimeoutException\<close> is one of its subclasses).
\<close>

datatype error =
    ValueError string
  | TypeError string
  | AttributeError string
  | HTTPError string
  | DBError string
  | OSError string
  | APIError string
  | MultipleResultsFound string

text \<open>\<open>str(e)\<close>: the message of the exception.\<close>

fun str_error :: "error \<Rightarrow> string" where
  "str_error (ValueError m) = m"
| "str_error (TypeError m) = m"
| "str_error (AttributeError m) = m"
| "str_error (HTTPError m) = m"
| "str_error (DBError m) = m"
| "str_error (OSError m) = m"
| "str_error (APIError m) = m"
| "str_error (MultipleResultsFound m) = m"

text \<open>What \<open>json.loads\<close> can return. A float keeps its literal text.\<close>

datatype json =
    JNull
  | JBool bool
  | JInt int
  | JFloat string
  | JString string
  | JArray "json list"
  | JObject "(string \<times> json) list"

subsection \<open>Strings\<close>

text \<open>
  A character is a code point below 256. \<open>isspace\<close> is \<open>str.isspace\<close> on that range:
  tab to carriage return, the four separators 28 to 31, the space, NEL and the no-break
  space.
\<close>

definition isspace :: "char \<Rightarrow> bool" where
  "isspace c = (of_char c \<in> set [9, 10, 11, 12, 13, 28, 29, 30, 31, 32, 133, 160 :: nat])"

definition strip :: "string \<Rightarrow> string" where
  "strip s = rev (dropWhile isspace (rev (dropWhile isspace s)))"

definition startswith :: "string \<Rightarrow> string \<Rightarrow> bool" where
  "startswith s pat = (take (length pat) s = pat)"

text \<open>
  \<open>s.find(pat, start)\<close>: the least index \<open>i \<ge> start\<close> at which \<open>pat\<close> occurs, or \<open>-1\<close>.
  \<open>find_at pat s i\<close> scans the rest \<open>s\<close> of the string, whose first character has
  index \<open>i\<close>.
\<close>

fun find_at :: "string \<Rightarrow> string \<Rightarrow> nat \<Rightarrow> int" where
  "find_at pat [] i = (if pat = [] then int i else -1)"
| "find_at pat (c # cs) i = (if startswith (c # cs) pat then int i else find_at pat cs (Suc i))"

definition py_find :: "string \<Rightarrow> string \<Rightarrow> nat \<Rightarrow> int" where
  "py_find s pat start = (if length s < start then -1 else find_at pat (drop start s) start)"

text \<open>\<open>pat in s\<close> on strings.\<close>

definition py_in :: "string \<Rightarrow> string \<Rightarrow> bool" where
  "py_in pat s = (py_find s pat 0 \<noteq> -1)"

text \<open>
  \<open>xs[a:b]\<close>: a negative bound counts from the end, and both bounds are clamped to the
  length.
\<close>

definition clamp_index :: "nat \<Rightarrow> int \<Rightarrow> nat" where
  "clamp_index n i = (if i < 0 then nat (max 0 (int n + i)) else min n (nat i))"

definition py_slice :: "'a list \<Rightarrow> int \<Rightarrow> int \<Rightarrow> 'a list" where
  "py_slice xs a b = drop (clamp_index (length xs) a) (take (clamp_index (length xs) b) xs)"

fun join :: "string \<Rightarrow> string list \<Rightarrow> string" where
  "join sep [] = []"
| "join sep [x] = x"
| "join sep (x # y # ys) = x @ sep @ join sep (y # ys)"

text \<open>
  \<open>q s\<close> puts \<open>s\<close> between single quotes. \<open>repr\<close> of a list of strings, as an f-string prints it. The strings printed by the
  program are field names without quotes, backslashes or control characters, for which
  \<open>repr\<close> is the name between single quotes.
\<close>

definition q :: "string \<Rightarrow> string" where
  "q s = [CHR 0x27] @ s @ [CHR 0x27]"

definition py_repr_str :: "string \<Rightarrow> string" where
  "py_repr_str s = q s"

definition py_repr_list :: "string list \<Rightarrow> string" where
  "py_repr_list xs = ''['' @ join '', '' (map py_repr_str xs) @ '']''"

section \<open>The report generator (llm\_service.py)\<close>

subsection \<open>\<open>_parse_llm_response\<close>\<close>

text \<open>
  The text handed to \<open>json.loads\<close>: the inside of the first block opened by the tagged
  fence when the tagged fence occurs, else the inside of the first fenced block when a
  fence occurs, else the whole response; stripped in each case. When the closing fence
  is absent \<open>find\<close> returns \<open>-1\<close>, and the slice then ends before the last character.
\<close>

definition json_str :: "string \<Rightarrow> string" where
  "json_str response =
     (if py_in ''```json'' response then
        (let json_start = py_find response ''```json'' 0 + 7;
             json_end = py_find response ''```'' (nat json_start)
         in strip (py_slice response json_start json_end))
      else if py_in ''```'' response then
        (let json_start = py_find response ''```'' 0 + 3;
             json_end = py_find response ''```'' (nat json_start)
         in strip (py_slice response json_start json_end))
      else strip response)"

text \<open>
  \<open>json.loads\<close> belongs to the Python library, so the decoder is a parameter \<open>loads\<close>:
  it returns the decoded value, or the text of the \<open>JSONDecodeError\<close>.
\<close>

definition parse_llm_response :: "(string \<Rightarrow> string + json) \<Rightarrow> string \<Rightarrow> error + json" where
  "parse_llm_response loads response =
     (case loads (json_str response) of
        Inr report_content \<Rightarrow> Inr report_content
      | Inl e \<Rightarrow> Inl (ValueError (''Failed to parse LLM response as JSON: '' @ e)))"

subsection \<open>\<open>_validate_report_content\<close>\<close>

definition required_fields :: "string list" where
  "required_fields =
     [''core_summary'', ''research_background'', ''technical_innovation'',
      ''experiments_results'', ''application_value'', ''limitations'',
      ''recommended_audience'']"

text \<open>The loop over \<open>content.items()\<close>: it raises at the first offending item.\<close>

fun check_items :: "(string \<times> json) list \<Rightarrow> error + unit" where
  "check_items [] = Inr ()"
| "check_items ((field, JString s) # rest) =
     (if strip s = [] then
        Inl (ValueError (''Field '' @ q field @ '' must be a non-empty string''))
      else check_items rest)"
| "check_items ((field, v) # rest) =
     Inl (ValueError (''Field '' @ q field @ '' must be a non-empty string''))"

definition not_iterable :: "string \<Rightarrow> error" where
  "not_iterable ty = TypeError (''argument of type '' @ q ty @ '' is not iterable'')"

definition missing_error :: "string list \<Rightarrow> error" where
  "missing_error missing_fields = ValueError (''Missing required fields: '' @ py_repr_list missing_fields)"

text \<open>
  The argument is whatever the decoder returned. On an object, \<open>field not in content\<close>
  tests the keys. On an array it tests the elements and on a string it tests substrings;
  both then have no \<open>items\<close>. The other values are not iterable.
\<close>

fun validate_report_content :: "json \<Rightarrow> error + unit" where
  "validate_report_content (JObject content) =
     (let missing_fields = filter (\<lambda>field. field \<notin> set (map fst content)) required_fields
      in if missing_fields \<noteq> [] then Inl (missing_error missing_fields)
         else check_items content)"
| "validate_report_content (JArray content) =
     (let missing_fields = filter (\<lambda>field. JString field \<notin> set content) required_fields
      in if missing_fields \<noteq> [] then Inl (missing_error missing_fields)
         else Inl (AttributeError (q ''list'' @ '' object has no attribute '' @ q ''items'')))"
| "validate_report_content (JString content) =
     (let missing_fields = filter (\<lambda>field. \<not> py_in field content) required_fields
      in if missing_fields \<noteq> [] then Inl (missing_error missing_fields)
         else Inl (AttributeError (q ''str'' @ '' object has no attribute '' @ q ''items'')))"
| "validate_report_content JNull = Inl (not_iterable ''NoneType'')"
| "validate_report_content (JBool b) = Inl (not_iterable ''bool'')"
| "validate_report_content (JInt n) = Inl (not_iterable ''int'')"
| "validate_report_content (JFloat x) = Inl (not_iterable ''float'')"

section \<open>Retry (utils/retry.py)\<close>

text \<open>
  How Python binds the arguments of a call to the parameters of a function without
  \<open>*args\<close> and \<open>**kwargs\<close>. A parameter is its name and whether it has a default. The
  positional arguments go to the first parameters; then every keyword must name a
  parameter, and one that no positional argument has taken; then no positional argument
  may be left over and no parameter without a default may be left without a value.
  The first violation raises a \<open>TypeError\<close>. The messages of the last two violations,
  which the program does not reach, are abridged.
\<close>

fun bind_keywords :: "string \<Rightarrow> string list \<Rightarrow> string list \<Rightarrow> string list \<Rightarrow> error option" where
  "bind_keywords fname names bound [] = None"
| "bind_keywords fname names bound (k # ks) =
     (if k \<notin> set names then
        Some (TypeError (fname @ ''() got an unexpected keyword argument '' @ q k))
      else if k \<in> set bound then
        Some (TypeError (fname @ ''() got multiple values for argument '' @ q k))
      else bind_keywords fname names (k # bound) ks)"

definition bind_call :: "string \<Rightarrow> (string \<times> bool) list \<Rightarrow> nat \<Rightarrow> string list \<Rightarrow> error option" where
  "bind_call fname params n_positional keywords =
     (case bind_keywords fname (map fst params) (take n_positional (map fst params)) keywords of
        Some e \<Rightarrow> Some e
      | None \<Rightarrow>
          if length params < n_positional then
            Some (TypeError (fname @ ''() takes fewer positional arguments than were given''))
          else
            (case filter (\<lambda>p. \<not> snd p \<and> fst p \<notin> set keywords) (drop n_positional params) of
               [] \<Rightarrow> None
             | p # ps \<Rightarrow>
                 Some (TypeError (fname @ ''() missing a required positional argument: '' @ q (fst p)))))"

text \<open>
  The declaration of \<open>before_sleep_log\<close> in the tenacity library:
  \<open>def before_sleep_log(logger, log_level, exc_info=False)\<close>.
\<close>

definition tenacity_before_sleep_log :: "(string \<times> bool) list" where
  "tenacity_before_sleep_log = [(''logger'', False), (''log_level'', False), (''exc_info'', True)]"

text \<open>
  The loop of \<open>tenacity.retry\<close> with \<open>stop_after_attempt\<close>, \<open>retry_if_exception_type\<close>
  and \<open>reraise=True\<close>: after attempt number \<open>attempt\<close> raised \<open>e\<close>, the function runs
  again when \<open>e\<close> is of a class to retry on and \<open>attempt\<close> is below \<open>max_attempts\<close>;
  otherwise \<open>e\<close> is raised. The number returned beside the result is the number of the
  last attempt, that is, how many times the function ran. The waiting between attempts
  is time only and is left out.
\<close>

function retrying ::
  "nat \<Rightarrow> (error \<Rightarrow> bool) \<Rightarrow> (nat \<Rightarrow> error + 'a) \<Rightarrow> nat \<Rightarrow> (error + 'a) \<times> nat" where
  "retrying max_attempts exceptions func attempt =
     (case func attempt of
        Inr v \<Rightarrow> (Inr v, attempt)
      | Inl e \<Rightarrow>
          if exceptions e \<and> attempt < max_attempts
          then retrying max_attempts exceptions func (Suc attempt)
          else (Inl e, attempt))"
  by pat_completeness auto
termination
  by (relation "measure (\<lambda>(max_attempts, exceptions, func, attempt). max_attempts - attempt)") auto

section \<open>Settings (core/config.py)\<close>

record settings =
  default_provider :: string
  openai_model :: string
  qwen_model :: string
  zhipu_model :: string
  kimi_model :: string
  max_retries :: nat

text \<open>\<open>get_provider_config(provider)["model"]\<close>: an unknown provider gets the openai entry.\<close>

definition get_provider_model :: "settings \<Rightarrow> string \<Rightarrow> string" where
  "get_provider_model cfg provider =
     (if provider = ''openai'' then openai_model cfg
      else if provider = ''qwen'' then qwen_model cfg
      else if provider = ''zhipu'' then zhipu_model cfg
      else if provider = ''kimi'' then kimi_model cfg
      else openai_model cfg)"

section \<open>Data model (models/, schemas/)\<close>

text \<open>
  Times are numbers. The columns the database fills by itself (\<open>crawl_time\<close>,
  \<open>created_at\<close>, \<open>updated_at\<close>) are left out.
\<close>

record paper_create =
  pc_paper_id :: string
  pc_title :: string
  pc_authors :: "string list"
  pc_abstract :: string
  pc_publication_date :: "nat option"
  pc_source :: string
  pc_pdf_url :: "string option"
  pc_categories :: "string list option"
  pc_raw_data :: "(string \<times> string) list"

record paper =
  pk :: nat
  paper_id :: string
  title :: string
  authors :: "string list"
  abstract :: string
  publication_date :: "nat option"
  source :: string
  pdf_url :: "string option"
  categories :: "string list option"
  raw_data :: "(string \<times> string) list"
  status :: string

record token_usage_rec =
  prompt_tokens :: int
  completion_tokens :: int
  total_tokens :: int

record report =
  report_pk :: nat
  report_paper_id :: nat
  llm_provider :: string
  llm_model :: string
  report_content :: json
  markdown_path :: string
  generation_time :: "int option"
  token_usage :: "token_usage_rec option"
  report_status :: string

record generate_request =
  req_paper_id :: "string option"
  req_llm_provider :: "string option"
  force_regenerate :: bool

record batch_result =
  total_processed :: nat
  success :: nat
  failed :: nat

record crawl_result =
  total_crawled :: nat
  saved :: nat
  duplicates :: nat
  crawl_failed :: nat

datatype summary = SingleSummary string nat | BatchSummary batch_result

record task =
  task_pk :: nat
  task_type :: string
  task_params :: generate_request
  task_status :: string
  trigger_type :: string
  end_time :: "nat option"
  result_summary :: "summary option"
  error_message :: "string option"

text \<open>
  The session: the rows of the three tables as the session sees them, in table order,
  and the next value of each autoincrement key. An ORM object is the row at its index,
  so that assigning to \<open>paper.status\<close> updates that row. A pending row whose flush raises
  is not kept.
\<close>

record db =
  papers :: "paper list"
  reports :: "report list"
  tasks :: "task list"
  paper_seq :: nat
  report_seq :: nat
  task_seq :: nat

section \<open>The environment\<close>

text \<open>
  Every call that can raise in the database session is one \<open>db_call\<close>; the number is
  the position of the fetched record (ingest) or the index of the paper row (analysis).
\<close>

datatype db_call =
    ExistsQuery nat
  | FlushNewPaper nat
  | CommitIngest
  | SelectNew
  | FlushProcessing nat
  | FlushReport nat
  | FlushFailed nat
  | CommitBatch
  | SelectByPaperId
  | CommitRegenerate
  | FlushTask
  | CommitTaskSuccess
  | CommitTaskFailed

text \<open>
  What the LLM client returns: the text, and the \<open>token_usage\<close> entry of the response
  metadata (empty when the response has no metadata or no such entry).
\<close>

record llm_response =
  content :: string
  usage :: "(string \<times> int) list"

text \<open>
  The outcome of every external effect of one invocation:
  \<^item> \<open>loads\<close>: the JSON decoder;
  \<^item> \<open>llm_init i\<close>: the error raised by building the LLM client for paper row \<open>i\<close>, if any;
  \<^item> \<open>ainvoke i k\<close>: the reply of the LLM to the prompt of paper row \<open>i\<close> at attempt \<open>k\<close>;
  \<^item> \<open>elapsed i k\<close>: the whole seconds that attempt took;
  \<^item> \<open>create_markdown_report\<close>: the document writer (document\_generator.py), which
    renders the template and writes the file; it returns the path or raises;
  \<^item> \<open>db_raises c\<close>: the error raised by the database call \<open>c\<close>, if any;
  \<^item> \<open>client_get url k\<close>: the page returned by the HTTP request at attempt \<open>k\<close>, after
    \<open>raise_for_status\<close>;
  \<^item> \<open>parse_papers_page\<close>: the HTML scraper together with the conversion to the schema;
  \<^item> \<open>now\<close>: the clock;
  \<^item> \<open>before_sleep_log\<close>: the parameters of the function of that name in the installed
    retry library, which \<open>retry.py\<close> calls.
\<close>

record env =
  loads :: "string \<Rightarrow> string + json"
  llm_init :: "nat \<Rightarrow> error option"
  ainvoke :: "nat \<Rightarrow> nat \<Rightarrow> error + llm_response"
  elapsed :: "nat \<Rightarrow> nat \<Rightarrow> int"
  create_markdown_report :: "nat \<Rightarrow> paper \<Rightarrow> json \<Rightarrow> string \<Rightarrow> error + string"
  db_raises :: "db_call \<Rightarrow> error option"
  client_get :: "string \<Rightarrow> nat \<Rightarrow> error + string"
  parse_papers_page :: "string \<Rightarrow> paper_create list"
  now :: nat
  before_sleep_log :: "(string \<times> bool) list"

subsection \<open>\<open>async_retry\<close>\<close>

text \<open>
  The decorator of \<open>retry.py\<close>. To decorate a function it builds the arguments of
  \<open>tenacity.retry\<close>, among them \<open>before_sleep_log(logger, logging_level="WARNING")\<close>: one
  positional argument and the keyword \<open>logging_level\<close>. When that call raises, the
  decoration raises. The program decorates when it loads the module, in the class body;
  the model gives the decorated function the outcome of the decoration, so that every
  use of a function whose decoration raised raises that error, without running the
  function once. When the decoration succeeds the function runs in the loop, from attempt 1.
\<close>

definition async_retry ::
  "env \<Rightarrow> nat \<Rightarrow> (error \<Rightarrow> bool) \<Rightarrow> (nat \<Rightarrow> error + 'a) \<Rightarrow> (error + 'a) \<times> nat" where
  "async_retry env max_attempts exceptions func =
     (case bind_call ''before_sleep_log'' (before_sleep_log env) 1 [''logging_level''] of
        Some e \<Rightarrow> (Inl e, 0)
      | None \<Rightarrow> retrying max_attempts exceptions func 1)"

section \<open>The report generator, continued\<close>

record llm_result =
  res_content :: json
  res_generation_time :: int
  res_token_usage :: "token_usage_rec option"
  res_llm_provider :: string
  res_llm_model :: string

definition dict_get :: "('k \<times> 'v) list \<Rightarrow> 'k \<Rightarrow> 'v \<Rightarrow> 'v" where
  "dict_get d k dflt = (case map_of d k of Some v \<Rightarrow> v | None \<Rightarrow> dflt)"

text \<open>
  The body of \<open>generate_report\<close>, one attempt: call the LLM, parse, validate, collect the
  metadata. Its handler logs and raises again.
\<close>

definition generate_report_body ::
  "env \<Rightarrow> settings \<Rightarrow> string \<Rightarrow> nat \<Rightarrow> nat \<Rightarrow> error + llm_result" where
  "generate_report_body env cfg provider i attempt =
     (case ainvoke env i attempt of
        Inl e \<Rightarrow> Inl e
      | Inr response \<Rightarrow>
          (case parse_llm_response (loads env) (content response) of
             Inl e \<Rightarrow> Inl e
           | Inr parsed \<Rightarrow>
               (case validate_report_content parsed of
                  Inl e \<Rightarrow> Inl e
                | Inr u \<Rightarrow>
                    Inr \<lparr>res_content = parsed,
                         res_generation_time = elapsed env i attempt,
                         res_token_usage =
                           (if usage response = [] then None
                            else Some \<lparr>prompt_tokens = dict_get (usage response) ''prompt_tokens'' 0,
                                       completion_tokens = dict_get (usage response) ''completion_tokens'' 0,
                                       total_tokens = dict_get (usage response) ''total_tokens'' 0\<rparr>),
                         res_llm_provider = provider,
                         res_llm_model = get_provider_model cfg provider\<rparr>)))"

text \<open>
  \<open>@async_retry(max_attempts=2, exceptions=(Exception,))\<close>: every error is of a class
  to retry on.
\<close>

definition generate_report ::
  "env \<Rightarrow> settings \<Rightarrow> string \<Rightarrow> nat \<Rightarrow> (error + llm_result) \<times> nat" where
  "generate_report env cfg provider i =
     async_retry env 2 (\<lambda>e. True) (generate_report_body env cfg provider i)"

text \<open>\<open>provider or settings.llm.default_provider\<close>.\<close>

definition provider_or_default :: "settings \<Rightarrow> string option \<Rightarrow> string" where
  "provider_or_default cfg provider =
     (case provider of
        None \<Rightarrow> default_provider cfg
      | Some p \<Rightarrow> if p = [] then default_provider cfg else p)"

definition generate_paper_report :: "env \<Rightarrow> settings \<Rightarrow> nat \<Rightarrow> string option \<Rightarrow> error + llm_result" where
  "generate_paper_report env cfg i provider =
     (case llm_init env i of
        Some e \<Rightarrow> Inl e
      | None \<Rightarrow> fst (generate_report env cfg (provider_or_default cfg provider) i))"

section \<open>The source fetcher (crawler.py)\<close>

definition is_http_error :: "error \<Rightarrow> bool" where
  "is_http_error e = (case e of HTTPError m \<Rightarrow> True | _ \<Rightarrow> False)"

definition BASE_URL :: string where
  "BASE_URL = ''https://huggingface.co/papers''"

definition fetch_url :: "string option \<Rightarrow> string" where
  "fetch_url date =
     (case date of
        None \<Rightarrow> BASE_URL
      | Some d \<Rightarrow> if d = [] then BASE_URL else BASE_URL @ ''?date='' @ d)"

text \<open>
  \<open>@async_retry(exceptions=(httpx.HTTPError, httpx.TimeoutException))\<close>, with the attempt
  count of the settings.
\<close>

definition fetch_daily_papers ::
  "env \<Rightarrow> settings \<Rightarrow> string option \<Rightarrow> (error + paper_create list) \<times> nat" where
  "fetch_daily_papers env cfg date =
     async_retry env (max_retries cfg) is_http_error
       (\<lambda>attempt. case client_get env (fetch_url date) attempt of
                     Inl e \<Rightarrow> Inl e
                   | Inr text \<Rightarrow> Inr (parse_papers_page env text))"

definition crawl_huggingface_papers ::
  "env \<Rightarrow> settings \<Rightarrow> string option \<Rightarrow> int option \<Rightarrow> error + paper_create list" where
  "crawl_huggingface_papers env cfg date limit =
     (case fst (fetch_daily_papers env cfg date) of
        Inl e \<Rightarrow> Inl e
      | Inr raw_papers \<Rightarrow>
          Inr (case limit of
                 None \<Rightarrow> raw_papers
               | Some n \<Rightarrow> if n \<noteq> 0 then py_slice raw_papers 0 n else raw_papers))"

section \<open>The orchestrator (orchestrator.py)\<close>

text \<open>
  \<open>select(Paper).where(Paper.paper_id == pid)\<close>: the indices of the matching rows, and
  \<open>scalar_one_or_none\<close> on them.
\<close>

definition find_by_paper_id :: "db \<Rightarrow> string \<Rightarrow> nat list" where
  "find_by_paper_id st pid = filter (\<lambda>i. paper_id (papers st ! i) = pid) [0..<length (papers st)]"

fun scalar_one_or_none :: "nat list \<Rightarrow> error + nat option" where
  "scalar_one_or_none [] = Inr None"
| "scalar_one_or_none [i] = Inr (Some i)"
| "scalar_one_or_none (i # j # rest) =
     Inl (MultipleResultsFound ''Multiple rows were found when one or none was required'')"

definition set_status :: "nat \<Rightarrow> string \<Rightarrow> db \<Rightarrow> db" where
  "set_status i s st = st\<lparr>papers := (papers st)[i := (papers st ! i)\<lparr>status := s\<rparr>]\<rparr>"

subsection \<open>\<open>crawl_and_save_papers\<close>\<close>

definition new_paper :: "db \<Rightarrow> paper_create \<Rightarrow> paper" where
  "new_paper st paper_data =
     \<lparr>pk = paper_seq st,
      paper_id = pc_paper_id paper_data,
      title = pc_title paper_data,
      authors = pc_authors paper_data,
      abstract = pc_abstract paper_data,
      publication_date = pc_publication_date paper_data,
      source = pc_source paper_data,
      pdf_url = pc_pdf_url paper_data,
      categories = pc_categories paper_data,
      raw_data = pc_raw_data paper_data,
      status = ''NEW''\<rparr>"

text \<open>
  One turn of the loop, for the fetched record at position \<open>k\<close>. The state is the three
  counters and the session. Whatever is raised inside the \<open>try\<close> is counted as failed.
\<close>

definition save_paper ::
  "env \<Rightarrow> nat \<Rightarrow> paper_create \<Rightarrow> nat \<times> nat \<times> nat \<times> db \<Rightarrow> nat \<times> nat \<times> nat \<times> db" where
  "save_paper env k paper_data acc =
     (case acc of (saved_count, duplicate_count, failed_count, st) \<Rightarrow>
        (case db_raises env (ExistsQuery k) of
           Some e \<Rightarrow> (saved_count, duplicate_count, Suc failed_count, st)
         | None \<Rightarrow>
             (case scalar_one_or_none (find_by_paper_id st (pc_paper_id paper_data)) of
                Inl e \<Rightarrow> (saved_count, duplicate_count, Suc failed_count, st)
              | Inr (Some existing_paper) \<Rightarrow> (saved_count, Suc duplicate_count, failed_count, st)
              | Inr None \<Rightarrow>
                  (case db_raises env (FlushNewPaper k) of
                     Some e \<Rightarrow> (saved_count, duplicate_count, Suc failed_count, st)
                   | None \<Rightarrow>
                       (Suc saved_count, duplicate_count, failed_count,
                        st\<lparr>papers := papers st @ [new_paper st paper_data],
                           paper_seq := Suc (paper_seq st)\<rparr>)))))"

fun save_papers ::
  "env \<Rightarrow> nat \<Rightarrow> paper_create list \<Rightarrow> nat \<times> nat \<times> nat \<times> db \<Rightarrow> nat \<times> nat \<times> nat \<times> db" where
  "save_papers env k [] acc = acc"
| "save_papers env k (paper_data # rest) acc =
     save_papers env (Suc k) rest (save_paper env k paper_data acc)"

definition crawl_and_save_papers ::
  "env \<Rightarrow> settings \<Rightarrow> string \<Rightarrow> string option \<Rightarrow> int option \<Rightarrow> db \<Rightarrow> (error + crawl_result) \<times> db" where
  "crawl_and_save_papers env cfg src date limit st =
     (if src = ''huggingface'' then
        (case crawl_huggingface_papers env cfg date limit of
           Inl e \<Rightarrow> (Inl e, st)
         | Inr fetched \<Rightarrow>
             (case save_papers env 0 fetched (0, 0, 0, st) of
                (saved_count, duplicate_count, failed_count, st') \<Rightarrow>
                  (case db_raises env CommitIngest of
                     Some e \<Rightarrow> (Inl e, st')
                   | None \<Rightarrow>
                       (Inr \<lparr>total_crawled = length fetched, saved = saved_count,
                             duplicates = duplicate_count, crawl_failed = failed_count\<rparr>, st'))))
      else (Inl (ValueError (''Unsupported source: '' @ src)), st))"

subsection \<open>\<open>_generate_single_report\<close>\<close>

text \<open>
  The \<open>try\<close> block, for the paper at row \<open>i\<close>: generate, write the document, add the
  report, set the status, flush.
\<close>

definition try_generate ::
  "env \<Rightarrow> settings \<Rightarrow> nat \<Rightarrow> string option \<Rightarrow> db \<Rightarrow> (error + report) \<times> db" where
  "try_generate env cfg i provider st =
     (case generate_paper_report env cfg i provider of
        Inl e \<Rightarrow> (Inl e, st)
      | Inr llm_res \<Rightarrow>
          (case create_markdown_report env i (papers st ! i) (res_content llm_res) (res_llm_model llm_res) of
             Inl e \<Rightarrow> (Inl e, st)
           | Inr filepath \<Rightarrow>
               (let new_report =
                      \<lparr>report_pk = report_seq st,
                       report_paper_id = pk (papers st ! i),
                       llm_provider = res_llm_provider llm_res,
                       llm_model = res_llm_model llm_res,
                       report_content = res_content llm_res,
                       markdown_path = filepath,
                       generation_time = Some (res_generation_time llm_res),
                       token_usage = res_token_usage llm_res,
                       report_status = ''SUCCESS''\<rparr>;
                    st1 = set_status i ''COMPLETED'' st
                in (case db_raises env (FlushReport i) of
                      Some e \<Rightarrow> (Inl e, st1)
                    | None \<Rightarrow>
                        (Inr new_report,
                         st1\<lparr>reports := reports st1 @ [new_report],
                             report_seq := Suc (report_seq st1)\<rparr>)))))"

text \<open>
  The status is set to PROCESSING and flushed before the \<open>try\<close>; the handler sets FAILED,
  flushes and raises the caught error again. An error raised by a flush outside the
  \<open>try\<close> block leaves the function as it is.
\<close>

definition generate_single_report ::
  "env \<Rightarrow> settings \<Rightarrow> nat \<Rightarrow> string option \<Rightarrow> db \<Rightarrow> (error + report) \<times> db" where
  "generate_single_report env cfg i provider st =
     (let st1 = set_status i ''PROCESSING'' st
      in (case db_raises env (FlushProcessing i) of
            Some e \<Rightarrow> (Inl e, st1)
          | None \<Rightarrow>
              (case try_generate env cfg i provider st1 of
                 (Inr new_report, st2) \<Rightarrow> (Inr new_report, st2)
               | (Inl e, st2) \<Rightarrow>
                   (let st3 = set_status i ''FAILED'' st2
                    in (case db_raises env (FlushFailed i) of
                          Some e' \<Rightarrow> (Inl e', st3)
                        | None \<Rightarrow> (Inl e, st3))))))"

subsection \<open>\<open>generate_reports_batch\<close>\<close>

text \<open>
  The query: the rows with status NEW, in table order, with \<open>LIMIT\<close> when \<open>limit\<close> is
  not zero. The configured database is PostgreSQL, which rejects a negative \<open>LIMIT\<close>.
\<close>

definition new_papers :: "db \<Rightarrow> nat list" where
  "new_papers st = filter (\<lambda>i. status (papers st ! i) = ''NEW'') [0..<length (papers st)]"

definition select_new_papers :: "env \<Rightarrow> int option \<Rightarrow> db \<Rightarrow> error + nat list" where
  "select_new_papers env limit st =
     (case db_raises env SelectNew of
        Some e \<Rightarrow> Inl e
      | None \<Rightarrow>
          (case limit of
             None \<Rightarrow> Inr (new_papers st)
           | Some n \<Rightarrow>
               if n \<noteq> 0 then
                 (if n < 0 then Inl (DBError ''LIMIT must not be negative'')
                  else Inr (take (nat n) (new_papers st)))
               else Inr (new_papers st)))"

text \<open>The loop: the state is the two counters and the session.\<close>

fun generate_each ::
  "env \<Rightarrow> settings \<Rightarrow> string option \<Rightarrow> nat list \<Rightarrow> nat \<times> nat \<times> db \<Rightarrow> nat \<times> nat \<times> db" where
  "generate_each env cfg provider [] acc = acc"
| "generate_each env cfg provider (i # rest) (success_count, failed_count, st) =
     (case generate_single_report env cfg i provider st of
        (Inr new_report, st') \<Rightarrow>
          generate_each env cfg provider rest (Suc success_count, failed_count, st')
      | (Inl e, st') \<Rightarrow>
          generate_each env cfg provider rest
            (success_count, Suc failed_count, set_status i ''FAILED'' st'))"

definition generate_reports_batch ::
  "env \<Rightarrow> settings \<Rightarrow> string option \<Rightarrow> int option \<Rightarrow> db \<Rightarrow> (error + batch_result) \<times> db" where
  "generate_reports_batch env cfg provider limit st =
     (case select_new_papers env limit st of
        Inl e \<Rightarrow> (Inl e, st)
      | Inr selected \<Rightarrow>
          if selected = [] then (Inr \<lparr>total_processed = 0, success = 0, failed = 0\<rparr>, st)
          else
            (case generate_each env cfg provider selected (0, 0, st) of
               (success_count, failed_count, st') \<Rightarrow>
                 (case db_raises env CommitBatch of
                    Some e \<Rightarrow> (Inl e, st')
                  | None \<Rightarrow>
                      (Inr \<lparr>total_processed = length selected, success = success_count,
                            failed = failed_count\<rparr>, st'))))"

subsection \<open>\<open>regenerate_report\<close>\<close>

definition regenerate_report ::
  "env \<Rightarrow> settings \<Rightarrow> string \<Rightarrow> string option \<Rightarrow> db \<Rightarrow> (error + report) \<times> db" where
  "regenerate_report env cfg pid provider st =
     (case db_raises env SelectByPaperId of
        Some e \<Rightarrow> (Inl e, st)
      | None \<Rightarrow>
          (case scalar_one_or_none (find_by_paper_id st pid) of
             Inl e \<Rightarrow> (Inl e, st)
           | Inr None \<Rightarrow> (Inl (ValueError (''Paper not found: '' @ pid)), st)
           | Inr (Some i) \<Rightarrow>
               (case generate_single_report env cfg i provider st of
                  (Inl e, st') \<Rightarrow> (Inl e, st')
                | (Inr new_report, st') \<Rightarrow>
                    (case db_raises env CommitRegenerate of
                       Some e \<Rightarrow> (Inl e, st')
                     | None \<Rightarrow> (Inr new_report, st')))))"

section \<open>The task route (api/routes.py, \<open>generate_reports\<close>)\<close>

function string_of_nat :: "nat \<Rightarrow> string" where
  "string_of_nat n =
     (if n < 10 then [char_of (48 + n)]
      else string_of_nat (n div 10) @ [char_of (48 + n mod 10)])"
  by pat_completeness auto
termination
  by (relation "measure id") auto

record generate_response =
  task_id :: nat
  message :: string
  response_status :: string

datatype route_error = HTTPException nat string | Unhandled error

text \<open>\<open>if request.paper_id\<close>: an identifier that is absent or empty selects the batch.\<close>

definition run_generation ::
  "env \<Rightarrow> settings \<Rightarrow> generate_request \<Rightarrow> db \<Rightarrow> (error + summary \<times> string) \<times> db" where
  "run_generation env cfg request st =
     (if req_paper_id request \<noteq> None \<and> req_paper_id request \<noteq> Some [] then
        (case regenerate_report env cfg (the (req_paper_id request)) (req_llm_provider request) st of
           (Inl e, st') \<Rightarrow> (Inl e, st')
         | (Inr new_report, st') \<Rightarrow>
             (Inr (SingleSummary (the (req_paper_id request)) (report_pk new_report),
                   ''Generated report for paper '' @ the (req_paper_id request)), st'))
      else
        (case generate_reports_batch env cfg (req_llm_provider request) None st of
           (Inl e, st') \<Rightarrow> (Inl e, st')
         | (Inr res, st') \<Rightarrow>
             (Inr (BatchSummary res,
                   ''Generated '' @ string_of_nat (success res) @ '' reports''), st')))"

text \<open>The handler of the route, for the task at index \<open>t\<close>.\<close>

definition fail_task :: "env \<Rightarrow> nat \<Rightarrow> error \<Rightarrow> db \<Rightarrow> (route_error + generate_response) \<times> db" where
  "fail_task env t e st =
     (let st' = st\<lparr>tasks := (tasks st)[t := (tasks st ! t)
                     \<lparr>task_status := ''FAILED'',
                      end_time := Some (now env),
                      error_message := Some (str_error e)\<rparr>]\<rparr>
      in (case db_raises env CommitTaskFailed of
            Some e' \<Rightarrow> (Inl (Unhandled e'), st')
          | None \<Rightarrow> (Inl (HTTPException 500 (''Generation failed: '' @ str_error e)), st')))"

definition generate_reports ::
  "env \<Rightarrow> settings \<Rightarrow> generate_request \<Rightarrow> db \<Rightarrow> (route_error + generate_response) \<times> db" where
  "generate_reports env cfg request st =
     (let new_task =
            \<lparr>task_pk = task_seq st,
             task_type = (if req_paper_id request \<noteq> None \<and> req_paper_id request \<noteq> Some []
                          then ''GENERATE_SINGLE'' else ''GENERATE_BATCH''),
             task_params = request,
             task_status = ''RUNNING'',
             trigger_type = ''MANUAL'',
             end_time = None,
             result_summary = None,
             error_message = None\<rparr>;
          t = length (tasks st)
      in (case db_raises env FlushTask of
            Some e \<Rightarrow> (Inl (Unhandled e), st)
          | None \<Rightarrow>
              (let st0 = st\<lparr>tasks := tasks st @ [new_task], task_seq := Suc (task_seq st)\<rparr>
               in (case run_generation env cfg request st0 of
                     (Inl e, st1) \<Rightarrow> fail_task env t e st1
                   | (Inr (res, msg), st1) \<Rightarrow>
                       (let st2 = st1\<lparr>tasks := (tasks st1)[t := (tasks st1 ! t)
                                        \<lparr>task_status := ''SUCCESS'',
                                         end_time := Some (now env),
                                         result_summary := Some res\<rparr>]\<rparr>
                        in (case db_raises env CommitTaskSuccess of
                              Some e \<Rightarrow> fail_task env t e st2
                            | None \<Rightarrow>
                                (Inr \<lparr>task_id = task_pk new_task, message = msg,
                                      response_status = ''SUCCESS''\<rparr>, st2)))))))"

section \<open>Terms of the statements, and sample data\<close>

text \<open>The required keys that are absent from a decoded object.\<close>

definition missing_required :: "(string \<times> json) list \<Rightarrow> string list" where
  "missing_required decoded = filter (\<lambda>field. field \<notin> set (map fst decoded)) required_fields"

text \<open>
  The two wrapped forms of a text: a fenced block tagged as JSON, and a fenced block
  without a tag, each with the text on lines of its own.
\<close>

definition tagged_block :: "string \<Rightarrow> string" where
  "tagged_block c = ''```json'' @ [CHR 0x0A] @ c @ [CHR 0x0A] @ ''```''"

definition generic_block :: "string \<Rightarrow> string" where
  "generic_block c = ''```'' @ [CHR 0x0A] @ c @ [CHR 0x0A] @ ''```''"

text \<open>A report with its seven fields, as JSON text and decoded.\<close>

definition sample_report_text :: string where
  \<open>sample_report_text = ''{"core_summary": "a", "research_background": "b", "technical_innovation": "c", "experiments_results": "d", "application_value": "e", "limitations": "f", "recommended_audience": "g"}''\<close>

definition sample_report :: "(string \<times> json) list" where
  "sample_report =
     [(''core_summary'', JString ''a''), (''research_background'', JString ''b''),
      (''technical_innovation'', JString ''c''), (''experiments_results'', JString ''d''),
      (''application_value'', JString ''e''), (''limitations'', JString ''f''),
      (''recommended_audience'', JString ''g'')]"

text \<open>A JSON object one of whose strings holds a fenced block.\<close>

definition fenced_content :: string where
  \<open>fenced_content = ''{"a": "```{}```"}''\<close>

text \<open>
  \<open>json.loads\<close> on the texts the examples decode: the empty object, the sample report,
  an object cut inside a string, and any other text taken as one that starts no JSON
  value, such as \<open>oops\<close>.
\<close>

definition demo_loads :: "string \<Rightarrow> string + json" where
  \<open>demo_loads s =
     (if s = ''{}'' then Inr (JObject [])
      else if s = sample_report_text then Inr (JObject sample_report)
      else if s = ''{"a": "'' then Inl ''Unterminated string starting at: line 1 column 7 (char 6)''
      else Inl ''Expecting value: line 1 column 1 (char 0)'')\<close>

definition sample_settings :: settings where
  "sample_settings =
     \<lparr>default_provider = ''openai'', openai_model = ''gpt-4'', qwen_model = ''qwen-max'',
      zhipu_model = ''glm-4'', kimi_model = ''moonshot-v1-8k'', max_retries = 3\<rparr>"

text \<open>
  The decoration of \<open>async_retry\<close> succeeds: the retry library of the environment
  binds the call of \<open>before_sleep_log\<close> that \<open>retry.py\<close> makes.
\<close>

definition retry_applies :: "env \<Rightarrow> bool" where
  "retry_applies env =
     (bind_call ''before_sleep_log'' (before_sleep_log env) 1 [''logging_level''] = None)"

text \<open>
  An environment in which nothing fails and the LLM answers with the sample report. Its
  retry library is one whose \<open>before_sleep_log\<close> takes the keyword \<open>logging_level\<close>
  that \<open>retry.py\<close> passes, which tenacity does not.
\<close>

definition sample_env :: env where
  "sample_env =
     \<lparr>loads = demo_loads,
      llm_init = (\<lambda>i. None),
      ainvoke = (\<lambda>i k. Inr \<lparr>content = tagged_block sample_report_text, usage = []\<rparr>),
      elapsed = (\<lambda>i k. 3),
      create_markdown_report = (\<lambda>i p c m. Inr ''reports/2024/01/report.md''),
      db_raises = (\<lambda>c. None),
      client_get = (\<lambda>url k. Inr ''<html></html>''),
      parse_papers_page = (\<lambda>text. []),
      now = 1700000000,
      before_sleep_log = [(''logger'', False), (''logging_level'', False)]\<rparr>"

text \<open>The sample environment with tenacity as its retry library.\<close>

definition tenacity_env :: env where
  "tenacity_env = sample_env\<lparr>before_sleep_log := tenacity_before_sleep_log\<rparr>"

text \<open>
  The error of the first step that fails inside the \<open>try\<close> block of
  \<open>_generate_single_report\<close> for the paper at row \<open>i\<close>: the LLM generation, then the
  document write, then the persistence of the report.
\<close>

definition first_failure :: "env \<Rightarrow> settings \<Rightarrow> nat \<Rightarrow> string option \<Rightarrow> db \<Rightarrow> error option" where
  "first_failure env cfg i provider st =
     (case generate_paper_report env cfg i provider of
        Inl e \<Rightarrow> Some e
      | Inr llm_res \<Rightarrow>
          (case create_markdown_report env i ((papers st ! i)\<lparr>status := ''PROCESSING''\<rparr>)
                  (res_content llm_res) (res_llm_model llm_res) of
             Inl e \<Rightarrow> Some e
           | Inr filepath \<Rightarrow> db_raises env (FlushReport i)))"

text \<open>The identifiers of the stored papers.\<close>

definition stored_ids :: "db \<Rightarrow> string set" where
  "stored_ids st = set (map paper_id (papers st))"

text \<open>Sample rows, records and sessions.\<close>

definition make_paper :: "nat \<Rightarrow> string \<Rightarrow> string \<Rightarrow> paper" where
  "make_paper k pid s =
     \<lparr>pk = k, paper_id = pid, title = ''A paper'', authors = [''Unknown''],
      abstract = ''No abstract available'', publication_date = None,
      source = ''HUGGINGFACE'', pdf_url = None, categories = None, raw_data = [],
      status = s\<rparr>"

definition make_record :: "string \<Rightarrow> paper_create" where
  "make_record pid =
     \<lparr>pc_paper_id = pid, pc_title = ''A paper'', pc_authors = [''Unknown''],
      pc_abstract = ''No abstract available'', pc_publication_date = None,
      pc_source = ''HUGGINGFACE'', pc_pdf_url = None, pc_categories = None,
      pc_raw_data = []\<rparr>"

definition sample_db :: db where
  "sample_db =
     \<lparr>papers = [make_paper 1 ''arxiv-A'' ''COMPLETED'', make_paper 2 ''arxiv-B'' ''NEW'',
                make_paper 3 ''arxiv-C'' ''NEW''],
      reports = [], tasks = [], paper_seq = 4, report_seq = 1, task_seq = 1\<rparr>"

definition one_paper_db :: db where
  "one_paper_db =
     \<lparr>papers = [make_paper 1 ''arxiv-A'' ''NEW''],
      reports = [], tasks = [], paper_seq = 2, report_seq = 1, task_seq = 1\<rparr>"

text \<open>A session that loses its connection at one call, and one at two calls.\<close>

definition failing_at :: "db_call \<Rightarrow> env" where
  "failing_at c = sample_env\<lparr>db_raises := (\<lambda>x. if x = c then Some (DBError ''connection lost'') else None)\<rparr>"

definition failing_report_and_handler :: env where
  "failing_report_and_handler =
     sample_env\<lparr>db_raises := (\<lambda>x. if x = FlushReport 0 then Some (DBError ''insert failed'')
                                  else if x = FlushFailed 0 then Some (DBError ''transaction rolled back'')
                                  else None)\<rparr>"

text \<open>
  Processing the paper at row \<open>i\<close> of the session \<open>st\<close> raises: \<open>_generate_single_report\<close>,
  called on that paper, ends with an error.
\<close>

definition paper_raises :: "env \<Rightarrow> settings \<Rightarrow> string option \<Rightarrow> db \<Rightarrow> nat \<Rightarrow> bool" where
  "paper_raises env cfg provider st i = isl (fst (generate_single_report env cfg i provider st))"

text \<open>The session after the row of a new paper is added.\<close>

definition add_paper :: "db \<Rightarrow> paper_create \<Rightarrow> db" where
  "add_paper st paper_data =
     st\<lparr>papers := papers st @ [new_paper st paper_data], paper_seq := Suc (paper_seq st)\<rparr>"

text \<open>What the generator returns from the sample report.\<close>

definition sample_result :: llm_result where
  "sample_result =
     \<lparr>res_content = JObject sample_report, res_generation_time = 3, res_token_usage = None,
      res_llm_provider = ''openai'', res_llm_model = ''gpt-4''\<rparr>"

text \<open>An LLM that is down for every paper, and one that is down for the paper at row 1.\<close>

definition llm_down_env :: env where
  "llm_down_env = sample_env\<lparr>ainvoke := (\<lambda>i k. Inl (APIError ''Request timed out''))\<rparr>"

definition llm_down_for_1_env :: env where
  "llm_down_for_1_env =
     sample_env\<lparr>ainvoke := (\<lambda>i k. if i = 1 then Inl (APIError ''Request timed out'')
                                   else Inr \<lparr>content = tagged_block sample_report_text, usage = []\<rparr>)\<rparr>"

text \<open>
  A fetch that returns the records A, B and C; the same with the flush of record B
  failing; and a session that holds paper A.
\<close>

definition abc_records :: "paper_create list" where
  "abc_records = [make_record ''arxiv-A'', make_record ''arxiv-B'', make_record ''arxiv-C'']"

definition abc_env :: env where
  "abc_env = sample_env\<lparr>parse_papers_page := (\<lambda>text. abc_records)\<rparr>"

definition abc_flush_b_fails_env :: env where
  "abc_flush_b_fails_env =
     abc_env\<lparr>db_raises := (\<lambda>x. if x = FlushNewPaper 1 then Some (DBError ''value too long'') else None)\<rparr>"

definition a_only_db :: db where
  "a_only_db =
     \<lparr>papers = [make_paper 1 ''arxiv-A'' ''COMPLETED''],
      reports = [], tasks = [], paper_seq = 2, report_seq = 1, task_seq = 1\<rparr>"

section \<open>Facts about the string functions\<close>

lemma startswith_Nil [simp]: "startswith s []"
  by (simp add: startswith_def)

lemma find_at_range:
  "find_at pat s i = -1 \<or> (\<exists>n\<le>length s. find_at pat s i = int (i + n))"
proof (induction s arbitrary: i)
  case Nil
  then show ?case by simp
next
  case (Cons c cs)
  show ?case
  proof (cases "startswith (c # cs) pat")
    case True
    then show ?thesis by auto
  next
    case False
    from Cons [of "Suc i"] show ?thesis
    proof
      assume "find_at pat cs (Suc i) = -1"
      with False show ?thesis by simp
    next
      assume "\<exists>n\<le>length cs. find_at pat cs (Suc i) = int (Suc i + n)"
      then obtain n where "n \<le> length cs" "find_at pat cs (Suc i) = int (Suc i + n)" by blast
      with False have "Suc n \<le> length (c # cs) \<and> find_at pat (c # cs) i = int (i + Suc n)" by simp
      then show ?thesis by blast
    qed
  qed
qed

lemma find_at_first:
  "(\<forall>n<length xs. \<not> startswith (drop n xs @ rest) pat) \<Longrightarrow> startswith rest pat \<Longrightarrow>
   find_at pat (xs @ rest) i = int (i + length xs)"
proof (induction xs arbitrary: i)
  case Nil
  then show ?case by (cases rest) (auto simp: startswith_def)
next
  case (Cons x xs)
  from Cons.prems(1) have h0: "\<not> startswith ((x # xs) @ rest) pat"
    by (metis drop0 length_greater_0_conv list.distinct(1))
  have "\<forall>n<length xs. \<not> startswith (drop n xs @ rest) pat"
  proof (intro allI impI)
    fix n assume "n < length xs"
    then have "Suc n < length (x # xs)" by simp
    with Cons.prems(1) have "\<not> startswith (drop (Suc n) (x # xs) @ rest) pat" by blast
    then show "\<not> startswith (drop n xs @ rest) pat" by simp
  qed
  with Cons.IH [of "Suc i"] Cons.prems(2) have "find_at pat (xs @ rest) (Suc i) = int (Suc i + length xs)"
    by blast
  with h0 show ?case by simp
qed

lemma find_at_none:
  "(\<forall>n\<le>length s. \<not> startswith (drop n s) pat) \<Longrightarrow> find_at pat s i = -1"
proof (induction s arbitrary: i)
  case Nil
  then show ?case by (auto simp: startswith_def)
next
  case (Cons c cs)
  from Cons.prems have h0: "\<not> startswith (c # cs) pat" by (metis drop0 le0)
  have "\<forall>n\<le>length cs. \<not> startswith (drop n cs) pat"
  proof (intro allI impI)
    fix n assume "n \<le> length cs"
    then have "Suc n \<le> length (c # cs)" by simp
    with Cons.prems have "\<not> startswith (drop (Suc n) (c # cs)) pat" by blast
    then show "\<not> startswith (drop n cs) pat" by simp
  qed
  with Cons.IH have "find_at pat cs (Suc i) = -1" by blast
  with h0 show ?case by simp
qed

lemma find_at_some:
  "n \<le> length s \<Longrightarrow> startswith (drop n s) pat \<Longrightarrow> find_at pat s i \<noteq> -1"
proof (induction s arbitrary: i n)
  case Nil
  then show ?case by (auto simp: startswith_def)
next
  case (Cons c cs)
  show ?case
  proof (cases "startswith (c # cs) pat")
    case True
    then show ?thesis by simp
  next
    case False
    with Cons.prems obtain m where n: "n = Suc m" by (cases n) auto
    with Cons.prems have "m \<le> length cs" "startswith (drop m cs) pat" by auto
    with Cons.IH have "find_at pat cs (Suc i) \<noteq> -1" by blast
    with False show ?thesis by simp
  qed
qed

lemma py_in_iff: "py_in pat s \<longleftrightarrow> (\<exists>n\<le>length s. startswith (drop n s) pat)"
  unfolding py_in_def py_find_def
  using find_at_none [of s pat 0] find_at_some [of _ s pat 0] by auto


lemma py_find_first:
  "(\<forall>n<length xs. \<not> startswith (drop n xs @ pat @ rest) pat) \<Longrightarrow>
   py_find (pre @ xs @ pat @ rest) pat (length pre) = int (length pre + length xs)"
  unfolding py_find_def
  using find_at_first [of xs "pat @ rest" pat "length pre"]
  by (simp add: startswith_def)

lemma py_slice_mid:
  "py_slice (pre @ body @ post) (int (length pre)) (int (length pre + length body)) = body"
  by (simp add: py_slice_def clamp_index_def)


lemma block_inside:
  assumes h1: "\<forall>n<length pre. \<not> startswith (drop n pre @ T @ body @ F @ post) T"
      and h2: "\<forall>n<length body. \<not> startswith (drop n body @ F @ post) F"
  shows "py_slice (pre @ T @ body @ F @ post)
           (py_find (pre @ T @ body @ F @ post) T 0 + int (length T))
           (py_find (pre @ T @ body @ F @ post) F
              (nat (py_find (pre @ T @ body @ F @ post) T 0 + int (length T)))) = body"
proof -
  let ?r = "pre @ T @ body @ F @ post"
  have f1: "py_find ?r T 0 = int (length pre)"
    using py_find_first [of pre T "body @ F @ post" "[]"] h1 by simp
  have "py_find ((pre @ T) @ body @ F @ post) F (length (pre @ T))
        = int (length (pre @ T) + length body)"
    using h2 by (intro py_find_first) simp
  then have f2: "py_find ?r F (length pre + length T) = int (length pre + length T + length body)"
    by simp
  have "py_slice ((pre @ T) @ body @ (F @ post))
          (int (length (pre @ T))) (int (length (pre @ T) + length body)) = body"
    by (rule py_slice_mid)
  then have sl: "py_slice ?r (int (length pre + length T)) (int (length pre + length T + length body)) = body"
    by simp
  have "nat (int (length pre) + int (length T)) = length pre + length T" by simp
  with f1 f2 sl show ?thesis by simp
qed

lemma py_in_block: "py_in T (pre @ T @ rest)"
  unfolding py_in_iff by (intro exI [of _ "length pre"]) (simp add: startswith_def)

lemma json_str_eq:
  "json_str r =
     (if py_in ''```json'' r then
        strip (py_slice r (py_find r ''```json'' 0 + int (length ''```json''))
                 (py_find r ''```'' (nat (py_find r ''```json'' 0 + int (length ''```json'')))))
      else if py_in ''```'' r then
        strip (py_slice r (py_find r ''```'' 0 + int (length ''```''))
                 (py_find r ''```'' (nat (py_find r ''```'' 0 + int (length ''```'')))))
      else strip r)"
  by (simp add: json_str_def Let_def)

lemma json_str_tagged:
  assumes h1: "\<forall>n<length pre. \<not> startswith (drop n pre @ ''```json'' @ body @ ''```'' @ post) ''```json''"
      and h2: "\<forall>n<length body. \<not> startswith (drop n body @ ''```'' @ post) ''```''"
  shows "json_str (pre @ ''```json'' @ body @ ''```'' @ post) = strip body"
  unfolding json_str_eq [of "pre @ ''```json'' @ body @ ''```'' @ post"]
  using block_inside [OF h1 h2] py_in_block [of "''```json''" pre "body @ ''```'' @ post"]
  by (simp only: if_True)

lemma json_str_generic:
  assumes h0: "\<not> py_in ''```json'' (pre @ ''```'' @ body @ ''```'' @ post)"
      and h1: "\<forall>n<length pre. \<not> startswith (drop n pre @ ''```'' @ body @ ''```'' @ post) ''```''"
      and h2: "\<forall>n<length body. \<not> startswith (drop n body @ ''```'' @ post) ''```''"
  shows "json_str (pre @ ''```'' @ body @ ''```'' @ post) = strip body"
  unfolding json_str_eq [of "pre @ ''```'' @ body @ ''```'' @ post"]
  using h0 block_inside [OF h1 h2] py_in_block [of "''```''" pre "body @ ''```'' @ post"]
  by (simp only: if_True if_False)

lemma startswith_appendD: "startswith s (a @ b) \<Longrightarrow> startswith s a"
proof -
  assume "startswith s (a @ b)"
  then have e: "take (length a + length b) s = a @ b" by (simp add: startswith_def)
  have "take (length a) s = take (length a) (take (length a + length b) s)"
    by (simp add: min_def)
  also have "\<dots> = a" using e by simp
  finally show ?thesis by (simp add: startswith_def)
qed

lemma not_in_fence_tagged: "\<not> py_in ''```'' r \<Longrightarrow> \<not> py_in ''```json'' r"
proof
  assume h: "\<not> py_in ''```'' r" and "py_in ''```json'' r"
  then obtain n where n: "n \<le> length r" "startswith (drop n r) (''```'' @ ''json'')"
    unfolding py_in_iff by auto
  from n(2) have "startswith (drop n r) ''```''" by (rule startswith_appendD)
  with n(1) h show False unfolding py_in_iff by blast
qed

lemma json_str_bare: "\<not> py_in ''```'' r \<Longrightarrow> json_str r = strip r"
  using not_in_fence_tagged [of r] by (simp add: json_str_def)

lemma isspace_nl [simp]: "isspace (CHR 0x0A)"
  by (simp add: isspace_def)

lemma strip_Cons_space: "isspace a \<Longrightarrow> strip (a # s) = strip s"
  by (simp add: strip_def)

lemma strip_snoc_space: "isspace a \<Longrightarrow> strip (s @ [a]) = strip s"
proof (cases "\<forall>x\<in>set s. isspace x")
  case True
  assume "isspace a"
  with True have "dropWhile isspace (s @ [a]) = []" "dropWhile isspace s = []"
    unfolding dropWhile_eq_Nil_conv by auto
  then show ?thesis unfolding strip_def by (simp only:)
next
  case False
  assume a: "isspace a"
  from False have "dropWhile isspace (s @ [a]) = dropWhile isspace s @ [a]"
    by (auto simp: dropWhile_append1)
  then have "strip (s @ [a]) = rev (dropWhile isspace (a # rev (dropWhile isspace s)))"
    unfolding strip_def by (simp only: rev_append rev.simps append_Nil append_Cons)
  with a show ?thesis by (simp add: strip_def)
qed

lemma strip_padded: "strip (CHR 0x0A # c @ [CHR 0x0A]) = strip c"
  by (simp add: strip_Cons_space strip_snoc_space)

lemma no_fence_in_padded:
  assumes h: "\<not> py_in ''```'' c"
  shows "\<forall>n<length (CHR 0x0A # c @ [CHR 0x0A]).
           \<not> startswith (drop n (CHR 0x0A # c @ [CHR 0x0A]) @ ''```'' @ post) ''```''"
proof (intro allI impI)
  fix n assume n: "n < length (CHR 0x0A # c @ [CHR 0x0A])"
  show "\<not> startswith (drop n (CHR 0x0A # c @ [CHR 0x0A]) @ ''```'' @ post) ''```''"
  proof (cases n)
    case 0
    then show ?thesis by (simp add: startswith_def)
  next
    case (Suc m)
    with n have m: "m \<le> length c" by simp
    have nd: "\<not> startswith (drop m c) ''```''"
      using h m unfolding py_in_iff by blast
    show ?thesis
    proof (cases "drop m c")
      case Nil
      with Suc m show ?thesis by (simp add: startswith_def)
    next
      case (Cons x1 r1)
      note c1 = Cons
      show ?thesis
      proof (cases r1)
        case Nil
        with c1 Suc m show ?thesis by (simp add: startswith_def)
      next
        case (Cons x2 r2)
        note c2 = Cons
        show ?thesis
        proof (cases r2)
          case Nil
          with c1 c2 Suc m show ?thesis by (simp add: startswith_def)
        next
          case (Cons x3 r3)
          with c1 c2 nd Suc m show ?thesis by (simp add: startswith_def)
        qed
      qed
    qed
  qed
qed

lemma json_str_tagged_block:
  assumes h1: "\<not> py_in ''```json'' pre" and h2: "\<not> py_in ''```'' c"
  shows "json_str (pre @ tagged_block c @ post) = strip c"
proof -
  have a: "\<forall>n<length pre. \<not> startswith (drop n pre @ ''```json'' @ (CHR 0x0A # c @ [CHR 0x0A]) @ ''```'' @ post) ''```json''"
  proof (intro allI impI)
    fix n assume n: "n < length pre"
    have nd: "\<not> startswith (drop n pre) ''```json''"
      using h1 n unfolding py_in_iff by (metis less_imp_le_nat)
    obtain d where d: "drop n pre = d" by simp
    show "\<not> startswith (drop n pre @ ''```json'' @ (CHR 0x0A # c @ [CHR 0x0A]) @ ''```'' @ post) ''```json''"
    proof (cases "length d < 7")
      case False
      then have "take 7 (d @ ''```json'' @ (CHR 0x0A # c @ [CHR 0x0A]) @ ''```'' @ post) = take 7 d"
        by simp
      with nd d show ?thesis by (simp add: startswith_def)
    next
      case True
      from n d have "0 < length d" by auto
      with True consider "length d = 1" | "length d = 2" | "length d = 3" | "length d = 4"
        | "length d = 5" | "length d = 6"
        by arith
      then show ?thesis
      proof cases
        case 1 then obtain x1 where "d = [x1]" by (cases d) auto
        with d show ?thesis by (simp add: startswith_def)
      next
        case 2 then obtain x1 x2 where "d = [x1, x2]"
          by (cases d; simp) (metis length_0_conv length_Suc_conv)
        with d show ?thesis by (simp add: startswith_def)
      next
        case 3 then obtain x1 x2 x3 where "d = [x1, x2, x3]"
          by (metis length_0_conv length_Suc_conv numeral_3_eq_3)
        with d show ?thesis by (simp add: startswith_def)
      next
        case 4 then obtain x1 x2 x3 x4 where "d = [x1, x2, x3, x4]"
          by (auto simp: eval_nat_numeral length_Suc_conv)
        with d show ?thesis by (simp add: startswith_def)
      next
        case 5 then obtain x1 x2 x3 x4 x5 where "d = [x1, x2, x3, x4, x5]"
          by (auto simp: eval_nat_numeral length_Suc_conv)
        with d show ?thesis by (simp add: startswith_def)
      next
        case 6 then obtain x1 x2 x3 x4 x5 x6 where "d = [x1, x2, x3, x4, x5, x6]"
          by (auto simp: eval_nat_numeral length_Suc_conv)
        with d show ?thesis by (simp add: startswith_def)
      qed
    qed
  qed
  have b: "\<forall>n<length (CHR 0x0A # c @ [CHR 0x0A]).
           \<not> startswith (drop n (CHR 0x0A # c @ [CHR 0x0A]) @ ''```'' @ post) ''```''"
    using h2 by (rule no_fence_in_padded)
  have "json_str (pre @ ''```json'' @ (CHR 0x0A # c @ [CHR 0x0A]) @ ''```'' @ post)
        = strip (CHR 0x0A # c @ [CHR 0x0A])"
    using a b by (rule json_str_tagged)
  then show ?thesis by (simp add: tagged_block_def strip_padded)
qed

lemma startswith_length: "startswith s pat \<Longrightarrow> length pat \<le> length s"
proof -
  assume "startswith s pat"
  then have "length (take (length pat) s) = length pat" by (simp add: startswith_def)
  then show ?thesis by simp
qed

lemma no_tagged_in_generic:
  assumes h: "\<not> py_in ''```'' c"
  shows "\<not> py_in ''```json'' (''```'' @ (CHR 0x0A # c @ [CHR 0x0A]) @ ''```'' @ [])"
proof
  define body where "body = CHR 0x0A # c @ [CHR 0x0A]"
  have hd_body: "\<exists>rest. body = CHR 0x0A # rest" by (simp add: body_def)
  assume "py_in ''```json'' (''```'' @ (CHR 0x0A # c @ [CHR 0x0A]) @ ''```'' @ [])"
  then have "py_in ''```json'' (''```'' @ body @ ''```'')" by (simp add: body_def)
  then obtain n where n: "startswith (drop n (''```'' @ body @ ''```'')) (''```'' @ ''json'')"
    unfolding py_in_iff by auto
  then have f: "startswith (drop n (''```'' @ body @ ''```'')) ''```''"
    by (rule startswith_appendD)
  from n have "length (''```'' @ ''json'') \<le> length (drop n (''```'' @ body @ ''```''))"
    by (rule startswith_length)
  then have len: "7 \<le> length (drop n (''```'' @ body @ ''```''))" by simp
  have "n = 0 \<or> n = Suc 0 \<or> n = Suc (Suc 0) \<or> n = Suc (Suc (Suc (n - 3)))"
    by arith
  then consider "n = 0" | "n = Suc 0" | "n = Suc (Suc 0)" | m where "n = Suc (Suc (Suc m))"
    by blast
  then show False
  proof cases
    case 1 with n hd_body show False by (auto simp: startswith_def)
  next
    case 2 with f hd_body show False by (auto simp: startswith_def)
  next
    case 3 with f hd_body show False by (auto simp: startswith_def)
  next
    case (4 m)
    then have d: "drop n (''```'' @ body @ ''```'') = drop m (body @ ''```'')"
      by simp
    show False
    proof (cases "m < length body")
      case True
      then have "drop m (body @ ''```'') = drop m body @ ''```'' @ []" by simp
      with f d have "startswith (drop m body @ ''```'' @ []) ''```''" by simp
      with no_fence_in_padded [OF h, of "[]"] True show False unfolding body_def by blast
    next
      case False
      from len have "7 \<le> 6 + length body - n" by simp
      with 4 False show False by simp
    qed
  qed
qed

lemma json_str_generic_block:
  assumes h: "\<not> py_in ''```'' c"
  shows "json_str (generic_block c) = strip c"
proof -
  let ?body = "CHR 0x0A # c @ [CHR 0x0A]"
  have "json_str ([] @ ''```'' @ ?body @ ''```'' @ []) = strip ?body"
  proof (rule json_str_generic)
    show "\<not> py_in ''```json'' ([] @ ''```'' @ ?body @ ''```'' @ [])"
      using no_tagged_in_generic [OF h] by simp
    show "\<forall>n<length ([]::string). \<not> startswith (drop n [] @ ''```'' @ ?body @ ''```'' @ []) ''```''"
      by simp
    show "\<forall>n<length ?body. \<not> startswith (drop n ?body @ ''```'' @ []) ''```''"
      using h by (rule no_fence_in_padded)
  qed
  then show ?thesis by (simp add: generic_block_def strip_padded)
qed

lemma py_in_Nil_iff: "\<not> py_in ''```json'' []"
  by (simp add: py_in_def py_find_def)

section \<open>Facts about the validation\<close>

lemma strip_Nil [simp]: "strip [] = []"
  by (simp add: strip_def)

lemma strip_nonempty: "strip s \<noteq> [] \<Longrightarrow> s \<noteq> []"
  by auto

lemma check_items_cases:
  "check_items kvs = Inr () \<or> (\<exists>m. check_items kvs = Inl (ValueError m))"
  by (induction kvs rule: check_items.induct) auto

lemma check_items_ok:
  "check_items kvs = Inr () \<longleftrightarrow> (\<forall>(k, v) \<in> set kvs. \<exists>s. v = JString s \<and> strip s \<noteq> [])"
  by (induction kvs rule: check_items.induct) auto

section \<open>Facts about the retry loop\<close>

lemma retrying_attempts: "snd (retrying n ex f k) \<le> max k n"
proof (induction n ex f k rule: retrying.induct)
  case (1 max_attempts exceptions func attempt)
  show ?case
  proof (cases "func attempt")
    case (Inr v)
    then show ?thesis by (subst retrying.simps) simp
  next
    case (Inl e)
    show ?thesis
    proof (cases "exceptions e \<and> attempt < max_attempts")
      case True
      with Inl 1 have "snd (retrying max_attempts exceptions func (Suc attempt)) \<le> max (Suc attempt) max_attempts"
        by blast
      with True Inl show ?thesis by (subst retrying.simps) simp
    next
      case False
      with Inl show ?thesis by (subst retrying.simps) auto
    qed
  qed
qed

lemma retrying_no_retry:
  "func k = Inl e \<Longrightarrow> \<not> exceptions e \<Longrightarrow> retrying n exceptions func k = (Inl e, k)"
  by (subst retrying.simps) simp

lemma retrying_ok:
  "func k = Inr v \<Longrightarrow> retrying n exceptions func k = (Inr v, k)"
  by (subst retrying.simps) simp

lemma retrying_last:
  "func k = Inl e \<Longrightarrow> \<not> k < n \<Longrightarrow> retrying n exceptions func k = (Inl e, k)"
  by (subst retrying.simps) simp

lemma retrying_again:
  "func k = Inl e \<Longrightarrow> exceptions e \<Longrightarrow> k < n \<Longrightarrow>
   retrying n exceptions func k = retrying n exceptions func (Suc k)"
  by (subst retrying.simps) simp

lemma retrying_two:
  "retrying 2 (\<lambda>e. True) f 1 = (case f 1 of Inr v \<Rightarrow> (Inr v, 1) | Inl e \<Rightarrow> (f 2, 2))"
proof (cases "f 1")
  case (Inr v)
  then show ?thesis by (simp add: retrying_ok)
next
  case (Inl e)
  have lt: "(1::nat) < 2" by simp
  have "retrying 2 (\<lambda>e. True) f 1 = retrying 2 (\<lambda>e. True) f (Suc 1)"
    using Inl _ lt by (rule retrying_again) simp
  then have a: "retrying 2 (\<lambda>e. True) f 1 = retrying 2 (\<lambda>e. True) f 2"
    by (simp only: Suc_1)
  have nlt: "\<not> (2::nat) < 2" by simp
  have "retrying 2 (\<lambda>e. True) f 2 = (f 2, 2)"
  proof (cases "f 2")
    case (Inr v)
    then show ?thesis using retrying_ok [of f 2 v 2 "\<lambda>e. True"] by simp
  next
    case (Inl e2)
    then show ?thesis using retrying_last [of f 2 e2 2 "\<lambda>e. True"] nlt by simp
  qed
  with a Inl show ?thesis by simp
qed

lemma async_retry_applied:
  "retry_applies env \<Longrightarrow> async_retry env n ex f = retrying n ex f 1"
  by (simp add: async_retry_def retry_applies_def)

lemma async_retry_ok:
  "retry_applies env \<Longrightarrow> func 1 = Inr v \<Longrightarrow> async_retry env n ex func = (Inr v, 1)"
  by (simp add: async_retry_applied retrying_ok)

lemma async_retry_raises:
  "bind_call ''before_sleep_log'' (before_sleep_log env) 1 [''logging_level''] = Some e \<Longrightarrow>
   async_retry env n ex f = (Inl e, 0)"
  by (simp add: async_retry_def)

lemma sample_env_applies: "retry_applies sample_env"
  by (simp add: retry_applies_def sample_env_def bind_call_def)

lemma same_library_applies:
  "before_sleep_log env = before_sleep_log sample_env \<Longrightarrow> retry_applies env"
  using sample_env_applies by (simp add: retry_applies_def)

lemma generate_report_two_attempts:
  assumes "retry_applies env"
  shows "generate_report env cfg provider i =
     (case generate_report_body env cfg provider i 1 of
        Inr v \<Rightarrow> (Inr v, 1)
      | Inl e \<Rightarrow> (generate_report_body env cfg provider i 2, 2))"
  unfolding generate_report_def async_retry_applied [OF assms] by (rule retrying_two)

lemma parse_sample: "parse_llm_response demo_loads (tagged_block sample_report_text) = Inr (JObject sample_report)"
  by code_simp

lemma validate_sample: "validate_report_content (JObject sample_report) = Inr ()"
  by code_simp

section \<open>Facts about the orchestrator\<close>

lemma papers_set_status [simp]:
  "papers (set_status i s st) = (papers st)[i := (papers st ! i)\<lparr>status := s\<rparr>]"
  "reports (set_status i s st) = reports st"
  "tasks (set_status i s st) = tasks st"
  "report_seq (set_status i s st) = report_seq st"
  "paper_seq (set_status i s st) = paper_seq st"
  "task_seq (set_status i s st) = task_seq st"
  by (simp_all add: set_status_def)

lemma try_generate_frame:
  assumes "try_generate env cfg i provider st = (r, st')"
  shows "length (papers st') = length (papers st)
       \<and> (\<forall>j. j \<noteq> i \<longrightarrow> papers st' ! j = papers st ! j)
       \<and> tasks st' = tasks st
       \<and> (st' = st \<or> papers st' = (papers st)[i := (papers st ! i)\<lparr>status := ''COMPLETED''\<rparr>])"
  using assms
  by (auto simp: try_generate_def Let_def split: sum.splits option.splits)


lemma try_generate_failure:
  assumes "i < length (papers st)" "first_failure env cfg i provider st = Some e"
  shows "fst (try_generate env cfg i provider (set_status i ''PROCESSING'' st)) = Inl e"
  using assms
  by (auto simp: try_generate_def first_failure_def Let_def split: sum.splits option.splits)

lemma try_generate_success:
  assumes "i < length (papers st)" "first_failure env cfg i provider st = None"
  shows "\<exists>r. fst (try_generate env cfg i provider (set_status i ''PROCESSING'' st)) = Inr r"
    and "status (papers (snd (try_generate env cfg i provider (set_status i ''PROCESSING'' st))) ! i) = ''COMPLETED''"
  using assms
  by (auto simp: try_generate_def first_failure_def Let_def split: sum.splits option.splits)

lemma generate_single_report_frame:
  assumes "generate_single_report env cfg i provider st = (r, st')"
  shows "length (papers st') = length (papers st)
       \<and> (\<forall>j. j \<noteq> i \<longrightarrow> papers st' ! j = papers st ! j)
       \<and> tasks st' = tasks st"
proof (cases "db_raises env (FlushProcessing i)")
  case (Some e)
  with assms show ?thesis by (auto simp: generate_single_report_def Let_def)
next
  case None
  obtain r2 st2 where t: "try_generate env cfg i provider (set_status i ''PROCESSING'' st) = (r2, st2)"
    by (cases "try_generate env cfg i provider (set_status i ''PROCESSING'' st)")
  from try_generate_frame [OF t]
  have f: "length (papers st2) = length (papers st)" "\<forall>j. j \<noteq> i \<longrightarrow> papers st2 ! j = papers st ! j"
    "tasks st2 = tasks st" by auto
  from assms None t have "st' = st2 \<or> st' = set_status i ''FAILED'' st2"
    by (auto simp: generate_single_report_def Let_def split: sum.splits option.splits)
  with f show ?thesis by auto
qed

lemma generate_single_report_status:
  assumes i: "i < length (papers st)" and fl: "db_raises env (FlushProcessing i) = None"
  shows "(first_failure env cfg i provider st = None \<longrightarrow>
           (\<exists>r. fst (generate_single_report env cfg i provider st) = Inr r)
         \<and> status (papers (snd (generate_single_report env cfg i provider st)) ! i) = ''COMPLETED'')
       \<and> (\<forall>e. first_failure env cfg i provider st = Some e \<longrightarrow>
           status (papers (snd (generate_single_report env cfg i provider st)) ! i) = ''FAILED''
         \<and> fst (generate_single_report env cfg i provider st) =
             Inl (case db_raises env (FlushFailed i) of None \<Rightarrow> e | Some e' \<Rightarrow> e'))"
proof -
  obtain r2 st2 where t: "try_generate env cfg i provider (set_status i ''PROCESSING'' st) = (r2, st2)"
    by (cases "try_generate env cfg i provider (set_status i ''PROCESSING'' st)")
  from try_generate_frame [OF t] i have len: "i < length (papers st2)" by simp
  show ?thesis
  proof (intro conjI impI allI)
    assume n: "first_failure env cfg i provider st = None"
    from try_generate_success [OF i n] t obtain r where "r2 = Inr r"
      and "status (papers st2 ! i) = ''COMPLETED''" by auto
    with t fl show "\<exists>r. fst (generate_single_report env cfg i provider st) = Inr r"
      and "status (papers (snd (generate_single_report env cfg i provider st)) ! i) = ''COMPLETED''"
      by (simp_all add: generate_single_report_def Let_def)
  next
    fix e assume s: "first_failure env cfg i provider st = Some e"
    from try_generate_failure [OF i s] t have "r2 = Inl e" by simp
    with t fl len show "status (papers (snd (generate_single_report env cfg i provider st)) ! i) = ''FAILED''"
      and "fst (generate_single_report env cfg i provider st) =
             Inl (case db_raises env (FlushFailed i) of None \<Rightarrow> e | Some e' \<Rightarrow> e')"
      by (simp_all add: generate_single_report_def Let_def split: option.splits)
  qed
qed

lemma generate_single_report_completed:
  assumes i: "i < length (papers st)"
      and r: "generate_single_report env cfg i provider st = (Inr r, st')"
  shows "status (papers st' ! i) = ''COMPLETED''"
proof -
  from r have fl: "db_raises env (FlushProcessing i) = None"
    by (auto simp: generate_single_report_def Let_def split: option.splits)
  note s = generate_single_report_status [OF i fl, of cfg provider]
  show ?thesis
  proof (cases "first_failure env cfg i provider st")
    case None
    with s r show ?thesis by simp
  next
    case (Some e)
    with s r show ?thesis by simp
  qed
qed

lemma generate_each_inv:
  assumes "distinct sel" "\<forall>i\<in>set sel. i < length (papers st)"
      and "generate_each env cfg provider sel (s, f, st) = (s', f', st')"
  shows "length (papers st') = length (papers st)
       \<and> (\<forall>j. j \<notin> set sel \<longrightarrow> papers st' ! j = papers st ! j)
       \<and> tasks st' = tasks st
       \<and> (\<forall>i\<in>set sel. status (papers st' ! i) = ''COMPLETED'' \<or> status (papers st' ! i) = ''FAILED'')
       \<and> s' = s + length (filter (\<lambda>i. status (papers st' ! i) = ''COMPLETED'') sel)
       \<and> f' = f + length (filter (\<lambda>i. status (papers st' ! i) = ''FAILED'') sel)"
  using assms
proof (induction sel arbitrary: s f st)
  case Nil
  then show ?case by simp
next
  case (Cons i rest)
  from Cons.prems have i: "i < length (papers st)" and ni: "i \<notin> set rest"
    and dr: "distinct rest" and br: "\<forall>j\<in>set rest. j < length (papers st)" by auto
  obtain r st1 where g: "generate_single_report env cfg i provider st = (r, st1)"
    by (cases "generate_single_report env cfg i provider st")
  from generate_single_report_frame [OF g]
  have fr: "length (papers st1) = length (papers st)"
    "\<forall>j. j \<noteq> i \<longrightarrow> papers st1 ! j = papers st ! j" "tasks st1 = tasks st" by auto
  show ?case
  proof (cases r)
    case (Inr rep)
    with g Cons.prems(3) have e: "generate_each env cfg provider rest (Suc s, f, st1) = (s', f', st')"
      by simp
    from br fr have br1: "\<forall>j\<in>set rest. j < length (papers st1)" by simp
    note ih = Cons.IH [OF dr br1 e]
    from generate_single_report_completed [OF i] g Inr
    have c: "status (papers st1 ! i) = ''COMPLETED''" by simp
    from ih ni have same: "papers st' ! i = papers st1 ! i" by blast
    with c have ci: "status (papers st' ! i) = ''COMPLETED''" by simp
    from ih fr ci show ?thesis by auto
  next
    case (Inl err)
    let ?st2 = "set_status i ''FAILED'' st1"
    from Inl g Cons.prems(3) have e: "generate_each env cfg provider rest (s, Suc f, ?st2) = (s', f', st')"
      by simp
    from br fr have br2: "\<forall>j\<in>set rest. j < length (papers ?st2)" by simp
    note ih = Cons.IH [OF dr br2 e]
    from i fr have c: "status (papers ?st2 ! i) = ''FAILED''" by simp
    from ih ni have same: "papers st' ! i = papers ?st2 ! i" by blast
    with c have ci: "status (papers st' ! i) = ''FAILED''" by simp
    from ih fr ci show ?thesis by auto
  qed
qed

lemma new_papers_props:
  "distinct (new_papers st)"
  "i \<in> set (new_papers st) \<longleftrightarrow> i < length (papers st) \<and> status (papers st ! i) = ''NEW''"
  by (auto simp: new_papers_def)

lemma select_new_papers_props:
  assumes "select_new_papers env limit st = Inr sel"
  shows "distinct sel" and "set sel \<subseteq> set (new_papers st)"
    and "limit = None \<or> limit = Some 0 \<Longrightarrow> sel = new_papers st"
    and "limit = Some n \<Longrightarrow> n \<noteq> 0 \<Longrightarrow> sel = take (nat n) (new_papers st)"
  using assms
  by (auto simp: select_new_papers_def new_papers_props split: option.splits if_splits
           dest: in_set_takeD)

lemma batch_frame:
  assumes "generate_reports_batch env cfg provider limit st = (r, st')"
  shows "length (papers st') = length (papers st)
       \<and> (\<forall>i<length (papers st). status (papers st ! i) \<noteq> ''NEW'' \<longrightarrow> papers st' ! i = papers st ! i)
       \<and> tasks st' = tasks st"
proof (cases "select_new_papers env limit st")
  case (Inl e)
  with assms show ?thesis by (simp add: generate_reports_batch_def)
next
  case (Inr sel)
  note p = select_new_papers_props(1,2) [OF Inr]
  from p(2) have b: "\<forall>i\<in>set sel. i < length (papers st)" and n: "\<forall>i\<in>set sel. status (papers st ! i) = ''NEW''"
    by (auto simp: new_papers_props)
  obtain s f st1 where g: "generate_each env cfg provider sel (0, 0, st) = (s, f, st1)"
    by (cases "generate_each env cfg provider sel (0, 0, st)") auto
  note inv = generate_each_inv [OF p(1) b g]
  from assms Inr g have "st' = st \<or> st' = st1"
    by (auto simp: generate_reports_batch_def split: if_splits option.splits)
  with inv n show ?thesis by auto
qed

lemma batch_counts:
  assumes sel: "select_new_papers env limit st = Inr sel"
      and com: "db_raises env CommitBatch = None"
  shows "\<exists>res st'. generate_reports_batch env cfg provider limit st = (Inr res, st')
       \<and> total_processed res = length sel
       \<and> success res + failed res = total_processed res
       \<and> (\<forall>i\<in>set sel. status (papers st' ! i) = ''COMPLETED'' \<or> status (papers st' ! i) = ''FAILED'')
       \<and> success res = length (filter (\<lambda>i. status (papers st' ! i) = ''COMPLETED'') sel)
       \<and> failed res = length (filter (\<lambda>i. status (papers st' ! i) = ''FAILED'') sel)"
proof (cases "sel = []")
  case True
  with sel show ?thesis by (simp add: generate_reports_batch_def)
next
  case False
  note p = select_new_papers_props(1,2) [OF sel]
  from p(2) have b: "\<forall>i\<in>set sel. i < length (papers st)"
    by (auto simp: new_papers_props)
  obtain s f st1 where g: "generate_each env cfg provider sel (0, 0, st) = (s, f, st1)"
    by (cases "generate_each env cfg provider sel (0, 0, st)") auto
  note inv = generate_each_inv [OF p(1) b g]
  have r: "generate_reports_batch env cfg provider limit st
      = (Inr \<lparr>total_processed = length sel, success = s, failed = f\<rparr>, st1)"
    using sel com g False by (simp add: generate_reports_batch_def)
  from inv have all: "\<forall>i\<in>set sel. status (papers st1 ! i) = ''COMPLETED'' \<or> status (papers st1 ! i) = ''FAILED''"
    and se: "s = length (filter (\<lambda>i. status (papers st1 ! i) = ''COMPLETED'') sel)"
    and fe: "f = length (filter (\<lambda>i. status (papers st1 ! i) = ''FAILED'') sel)" by auto
  have "length (filter (\<lambda>i. status (papers st1 ! i) = ''COMPLETED'') sel)
      + length (filter (\<lambda>i. status (papers st1 ! i) = ''FAILED'') sel) = length sel"
    using all
  proof (induction sel)
    case Nil
    then show ?case by simp
  next
    case (Cons a sel)
    then show ?case by auto
  qed
  with se fe have "s + f = length sel" by simp
  with r all se fe show ?thesis by simp
qed

lemma find_by_paper_id_set:
  "set (find_by_paper_id st pid) = {i. i < length (papers st) \<and> paper_id (papers st ! i) = pid}"
  by (auto simp: find_by_paper_id_def)

lemma find_by_paper_id_Nil:
  "find_by_paper_id st pid = [] \<longleftrightarrow> pid \<notin> stored_ids st"
proof
  assume e: "find_by_paper_id st pid = []"
  show "pid \<notin> stored_ids st"
  proof
    assume "pid \<in> stored_ids st"
    then obtain i where "i < length (papers st)" "paper_id (papers st ! i) = pid"
      by (auto simp: stored_ids_def in_set_conv_nth)
    then have "i \<in> set (find_by_paper_id st pid)" by (simp add: find_by_paper_id_set)
    with e show False by simp
  qed
next
  assume n: "pid \<notin> stored_ids st"
  have "set (find_by_paper_id st pid) = {}"
    unfolding find_by_paper_id_set using n by (auto simp: stored_ids_def)
  then show "find_by_paper_id st pid = []" by simp
qed

lemma regenerate_unknown:
  assumes "pid \<notin> stored_ids st"
  shows "regenerate_report env cfg pid provider st =
     (case db_raises env SelectByPaperId of
        Some e \<Rightarrow> (Inl e, st)
      | None \<Rightarrow> (Inl (ValueError (''Paper not found: '' @ pid)), st))"
  using assms by (simp add: regenerate_report_def find_by_paper_id_Nil [symmetric] split: option.splits)

lemma fail_task_props:
  assumes "t < length (tasks st)" "fail_task env t e st = (res, st')"
  shows "(\<exists>x. res = Inl x)"
    and "db_raises env CommitTaskFailed = None \<Longrightarrow> res = Inl (HTTPException 500 (''Generation failed: '' @ str_error e))"
    and "length (tasks st') = length (tasks st)"
    and "\<forall>j. j \<noteq> t \<longrightarrow> tasks st' ! j = tasks st ! j"
    and "task_status (tasks st' ! t) = ''FAILED''"
    and "error_message (tasks st' ! t) = Some (str_error e)"
    and "end_time (tasks st' ! t) = Some (now env)"
    and "papers st' = papers st" and "reports st' = reports st"
  using assms by (auto simp: fail_task_def Let_def split: option.splits)

lemma crawl_limit_zero:
  "crawl_huggingface_papers env cfg date (Some 0) = crawl_huggingface_papers env cfg date None"
  by (simp add: crawl_huggingface_papers_def split: sum.splits)

lemma select_limit_zero:
  "select_new_papers env (Some 0) st = select_new_papers env None st"
  by (simp add: select_new_papers_def split: option.splits)

lemma distinct_all_equal:
  assumes "distinct ys" "ys \<noteq> []" "\<forall>x\<in>set ys. \<forall>y\<in>set ys. x = y"
  shows "\<exists>a. ys = [a]"
proof (cases ys)
  case Nil
  with assms show ?thesis by simp
next
  case (Cons a rest)
  note ys = Cons
  have "rest = []"
  proof (rule ccontr)
    assume "rest \<noteq> []"
    then obtain b where b: "b \<in> set rest" by (cases rest) auto
    with ys assms(3) have "b = a" by simp
    moreover from ys assms(1) have "a \<notin> set rest" by simp
    ultimately show False using b by simp
  qed
  with ys show ?thesis by simp
qed

lemma find_by_paper_id_one:
  assumes d: "distinct (map paper_id (papers st))" and m: "pid \<in> stored_ids st"
  shows "\<exists>i. find_by_paper_id st pid = [i]"
proof (rule distinct_all_equal)
  show "distinct (find_by_paper_id st pid)" by (simp add: find_by_paper_id_def)
  show "find_by_paper_id st pid \<noteq> []" using m by (simp add: find_by_paper_id_Nil)
  show "\<forall>x\<in>set (find_by_paper_id st pid). \<forall>y\<in>set (find_by_paper_id st pid). x = y"
  proof (intro ballI)
    fix x y assume "x \<in> set (find_by_paper_id st pid)" "y \<in> set (find_by_paper_id st pid)"
    then have x: "x < length (papers st)" "paper_id (papers st ! x) = pid"
      and y: "y < length (papers st)" "paper_id (papers st ! y) = pid"
      by (simp_all add: find_by_paper_id_set)
    then have e: "map paper_id (papers st) ! x = map paper_id (papers st) ! y" by simp
    from x(1) y(1) have "x < length (map paper_id (papers st))" "y < length (map paper_id (papers st))"
      by simp_all
    from nth_eq_iff_index_eq [OF d this] e show "x = y" by blast
  qed
qed

lemma save_paper_step:
  assumes "distinct (map paper_id (papers st))"
  shows "save_paper env k paper_data (s, d, f, st) =
     (if db_raises env (ExistsQuery k) \<noteq> None then (s, d, Suc f, st)
      else if pc_paper_id paper_data \<in> stored_ids st then (s, Suc d, f, st)
      else if db_raises env (FlushNewPaper k) \<noteq> None then (s, d, Suc f, st)
      else (Suc s, d, f, add_paper st paper_data))"
proof (cases "pc_paper_id paper_data \<in> stored_ids st")
  case True
  from find_by_paper_id_one [OF assms True] obtain i
    where "find_by_paper_id st (pc_paper_id paper_data) = [i]" by blast
  with True show ?thesis by (auto simp: save_paper_def split: option.splits)
next
  case False
  then have "find_by_paper_id st (pc_paper_id paper_data) = []"
    by (simp add: find_by_paper_id_Nil)
  with False show ?thesis by (auto simp: save_paper_def add_paper_def split: option.splits)
qed

lemma save_paper_total:
  "save_paper env k paper_data (s, d, f, st) = (s', d', f', st') \<Longrightarrow>
   s' + d' + f' = Suc (s + d + f)"
  by (auto simp: save_paper_def split: option.splits sum.splits)

lemma save_papers_total:
  "save_papers env k rs (s, d, f, st) = (s', d', f', st') \<Longrightarrow>
   s' + d' + f' = s + d + f + length rs"
proof (induction rs arbitrary: k s d f st)
  case Nil
  then show ?case by simp
next
  case (Cons r rs)
  obtain s1 d1 f1 st1 where st: "save_paper env k r (s, d, f, st) = (s1, d1, f1, st1)"
    by (cases "save_paper env k r (s, d, f, st)") auto
  with Cons.prems have "save_papers env (Suc k) rs (s1, d1, f1, st1) = (s', d', f', st')" by simp
  from Cons.IH [OF this] save_paper_total [OF st] show ?case by simp
qed

lemma stored_ids_add [simp]:
  "stored_ids (add_paper st r) = insert (pc_paper_id r) (stored_ids st)"
  by (simp add: stored_ids_def add_paper_def new_paper_def)

lemma save_papers_inv:
  assumes "distinct (map paper_id (papers st))"
      and "save_papers env k rs (s, d, f, st) = (s', d', f', st')"
  shows "distinct (map paper_id (papers st'))
       \<and> (\<exists>new. papers st' = papers st @ new)
       \<and> stored_ids st \<subseteq> stored_ids st'
       \<and> stored_ids st' \<subseteq> stored_ids st \<union> set (map pc_paper_id rs)
       \<and> reports st' = reports st \<and> tasks st' = tasks st"
  using assms
proof (induction rs arbitrary: k s d f st)
  case Nil
  then show ?case by simp
next
  case (Cons r rs)
  obtain s1 d1 f1 st1 where st: "save_paper env k r (s, d, f, st) = (s1, d1, f1, st1)"
    by (cases "save_paper env k r (s, d, f, st)") auto
  with Cons.prems have rest: "save_papers env (Suc k) rs (s1, d1, f1, st1) = (s', d', f', st')" by simp
  from st save_paper_step [OF Cons.prems(1), of env k r s d f]
  have "st1 = st \<or> (st1 = add_paper st r \<and> pc_paper_id r \<notin> stored_ids st)"
    by (auto split: if_splits)
  then show ?case
  proof
    assume e: "st1 = st"
    from Cons.IH [OF _ rest] e Cons.prems(1) show ?thesis by auto
  next
    assume a: "st1 = add_paper st r \<and> pc_paper_id r \<notin> stored_ids st"
    then have d1: "distinct (map paper_id (papers st1))"
      using Cons.prems(1) by (auto simp: add_paper_def new_paper_def stored_ids_def)
    from a have p1: "papers st1 = papers st @ [new_paper st r]" "reports st1 = reports st"
      "tasks st1 = tasks st"
      by (simp_all add: add_paper_def)
    from Cons.IH [OF d1 rest] a p1 show ?thesis by auto
  qed
qed

lemma save_papers_isolated:
  assumes "distinct (map paper_id (papers st))"
      and "save_papers env k rs (s, d, f, st) = (s', d', f', st')"
      and "j < length rs"
      and "db_raises env (ExistsQuery (k + j)) = None" "db_raises env (FlushNewPaper (k + j)) = None"
  shows "pc_paper_id (rs ! j) \<in> stored_ids st'"
  using assms
proof (induction rs arbitrary: k j s d f st)
  case Nil
  then show ?case by simp
next
  case (Cons r rs)
  obtain s1 d1 f1 st1 where st: "save_paper env k r (s, d, f, st) = (s1, d1, f1, st1)"
    by (cases "save_paper env k r (s, d, f, st)") auto
  with Cons.prems have rest: "save_papers env (Suc k) rs (s1, d1, f1, st1) = (s', d', f', st')" by simp
  from st save_paper_step [OF Cons.prems(1), of env k r s d f]
  have c: "st1 = st \<or> (st1 = add_paper st r \<and> pc_paper_id r \<notin> stored_ids st)"
    by (auto split: if_splits)
  then have d1: "distinct (map paper_id (papers st1))"
    using Cons.prems(1) by (auto simp: add_paper_def new_paper_def stored_ids_def)
  note inv = save_papers_inv [OF d1 rest]
  show ?case
  proof (cases j)
    case 0
    with Cons.prems(4,5) st save_paper_step [OF Cons.prems(1), of env k r s d f]
    have "pc_paper_id r \<in> stored_ids st1" by (auto split: if_splits)
    with inv 0 show ?thesis by auto
  next
    case (Suc m)
    with Cons.prems have "m < length rs" "db_raises env (ExistsQuery (Suc k + m)) = None"
      "db_raises env (FlushNewPaper (Suc k + m)) = None" by simp_all
    from Cons.IH [OF d1 rest this] Suc show ?thesis by simp
  qed
qed

lemma save_papers_duplicates:
  assumes "distinct (map paper_id (papers st))"
      and "save_papers env k rs (s, d, f, st) = (s', d', f', st')"
      and "\<forall>j<length rs. db_raises env (ExistsQuery (k + j)) = None"
      and "distinct (map pc_paper_id rs)"
  shows "d' = d + length (filter (\<lambda>r. pc_paper_id r \<in> stored_ids st) rs)"
  using assms
proof (induction rs arbitrary: k s d f st)
  case Nil
  then show ?case by simp
next
  case (Cons r rs)
  obtain s1 d1 f1 st1 where st: "save_paper env k r (s, d, f, st) = (s1, d1, f1, st1)"
    by (cases "save_paper env k r (s, d, f, st)") auto
  with Cons.prems have rest: "save_papers env (Suc k) rs (s1, d1, f1, st1) = (s', d', f', st')" by simp
  from Cons.prems(3) have q0: "db_raises env (ExistsQuery k) = None" by force
  from Cons.prems(3) have qs: "\<forall>j<length rs. db_raises env (ExistsQuery (Suc k + j)) = None" by force
  from Cons.prems(4) have dr: "distinct (map pc_paper_id rs)" and nr: "pc_paper_id r \<notin> set (map pc_paper_id rs)"
    by simp_all
  from st q0 save_paper_step [OF Cons.prems(1), of env k r s d f]
  have c: "(st1 = st \<or> (st1 = add_paper st r \<and> pc_paper_id r \<notin> stored_ids st))
         \<and> d1 = (if pc_paper_id r \<in> stored_ids st then Suc d else d)"
    by (auto split: if_splits)
  then have d1: "distinct (map paper_id (papers st1))"
    using Cons.prems(1) by (auto simp: add_paper_def new_paper_def stored_ids_def)
  have "filter (\<lambda>x. pc_paper_id x \<in> stored_ids st1) rs = filter (\<lambda>x. pc_paper_id x \<in> stored_ids st) rs"
  proof (rule filter_cong [OF refl])
    fix x assume "x \<in> set rs"
    then have "pc_paper_id x \<in> set (map pc_paper_id rs)" by simp
    with nr have "pc_paper_id x \<noteq> pc_paper_id r" by metis
    with c show "(pc_paper_id x \<in> stored_ids st1) = (pc_paper_id x \<in> stored_ids st)" by auto
  qed
  with Cons.IH [OF d1 rest qs dr] c show ?case by simp
qed

lemma save_papers_rerun:
  assumes "distinct (map paper_id (papers st))"
      and "\<forall>j<length rs. db_raises env (ExistsQuery (k + j)) = None"
      and "set (map pc_paper_id rs) \<subseteq> stored_ids st"
  shows "save_papers env k rs (s, d, f, st) = (s, d + length rs, f, st)"
  using assms
proof (induction rs arbitrary: k d)
  case Nil
  then show ?case by simp
next
  case (Cons r rs)
  from Cons.prems(2) have q0: "db_raises env (ExistsQuery k) = None" by force
  from Cons.prems(2) have qs: "\<forall>j<length rs. db_raises env (ExistsQuery (Suc k + j)) = None" by force
  from Cons.prems(3) have m: "pc_paper_id r \<in> stored_ids st" "set (map pc_paper_id rs) \<subseteq> stored_ids st"
    by simp_all
  from q0 m(1) save_paper_step [OF Cons.prems(1), of env k r s d f]
  have "save_paper env k r (s, d, f, st) = (s, Suc d, f, st)" by simp
  with Cons.IH [OF Cons.prems(1) qs m(2), of "Suc d"] show ?case by simp
qed

lemma sample_reply_body:
  assumes "ainvoke env i k = Inr \<lparr>content = tagged_block sample_report_text, usage = []\<rparr>"
      and "loads env = demo_loads" and "elapsed env i k = 3"
  shows "generate_report_body env sample_settings ''openai'' i k = Inr sample_result"
proof -
  have m: "get_provider_model sample_settings ''openai'' = ''gpt-4''"
    by (simp add: get_provider_model_def sample_settings_def)
  show ?thesis unfolding generate_report_body_def assms m
    by (simp add: parse_sample validate_sample sample_result_def del: validate_report_content.simps)
qed

lemma sample_provider: "provider_or_default sample_settings None = ''openai''"
  by (simp add: provider_or_default_def sample_settings_def)

lemma sample_reply_report:
  assumes "ainvoke env i 1 = Inr \<lparr>content = tagged_block sample_report_text, usage = []\<rparr>"
      and "loads env = demo_loads" and "elapsed env i 1 = 3" and "llm_init env i = None"
      and "before_sleep_log env = before_sleep_log sample_env"
  shows "generate_paper_report env sample_settings i None = Inr sample_result"
proof -
  have "generate_report env sample_settings ''openai'' i = (Inr sample_result, 1)"
    unfolding generate_report_def
    using same_library_applies [OF assms(5)] sample_reply_body [OF assms(1,2,3)]
    by (rule async_retry_ok)
  with assms(4) show ?thesis by (simp add: generate_paper_report_def sample_provider)
qed

lemma sample_env_report: "generate_paper_report sample_env sample_settings i None = Inr sample_result"
  by (rule sample_reply_report) (simp_all add: sample_env_def)

lemma generate_paper_report_down:
  assumes "ainvoke env i 1 = Inl e" "ainvoke env i 2 = Inl e" "llm_init env i = None"
      and "before_sleep_log env = before_sleep_log sample_env"
  shows "generate_paper_report env cfg i provider = Inl e"
proof -
  have "generate_report_body env cfg (provider_or_default cfg provider) i 1 = Inl e"
    "generate_report_body env cfg (provider_or_default cfg provider) i 2 = Inl e"
    using assms(1,2) by (simp_all add: generate_report_body_def)
  then have "generate_report env cfg (provider_or_default cfg provider) i = (Inl e, 2)"
    unfolding generate_report_two_attempts [OF same_library_applies [OF assms(4)]] by simp
  with assms(3) show ?thesis by (simp add: generate_paper_report_def)
qed

lemma sample_env_fields:
  "create_markdown_report sample_env i p c m = Inr ''reports/2024/01/report.md''"
  "db_raises sample_env x = None"
  "llm_init sample_env i = None"
  by (simp_all add: sample_env_def)

lemma llm_down_env_fields:
  "create_markdown_report llm_down_env i p c m = Inr ''reports/2024/01/report.md''"
  "db_raises llm_down_env x = None"
  "llm_init llm_down_env i = None"
  "ainvoke llm_down_env i k = Inl (APIError ''Request timed out'')"
  "before_sleep_log llm_down_env = before_sleep_log sample_env"
  by (simp_all add: llm_down_env_def sample_env_def)

lemma one_paper_db_rows: "length (papers one_paper_db) = 1"
  by (simp add: one_paper_db_def)

lemma first_failure_sample: "first_failure sample_env sample_settings i None st = None"
  unfolding first_failure_def sample_env_report sample_env_fields by simp

lemma first_failure_down:
  "first_failure llm_down_env sample_settings i None st = Some (APIError ''Request timed out'')"
proof -
  have "generate_paper_report llm_down_env sample_settings i None = Inl (APIError ''Request timed out'')"
    by (rule generate_paper_report_down) (simp_all add: llm_down_env_fields)
  then show ?thesis by (simp add: first_failure_def)
qed

lemma failing_report_fields:
  "create_markdown_report failing_report_and_handler i p c m = Inr ''reports/2024/01/report.md''"
  "db_raises failing_report_and_handler (FlushProcessing 0) = None"
  "db_raises failing_report_and_handler (FlushReport 0) = Some (DBError ''insert failed'')"
  "db_raises failing_report_and_handler (FlushFailed 0) = Some (DBError ''transaction rolled back'')"
  by (simp_all add: failing_report_and_handler_def sample_env_def)

lemma first_failure_report:
  "first_failure failing_report_and_handler sample_settings 0 None st = Some (DBError ''insert failed'')"
proof -
  have "generate_paper_report failing_report_and_handler sample_settings 0 None = Inr sample_result"
    by (rule sample_reply_report) (simp_all add: failing_report_and_handler_def sample_env_def)
  then show ?thesis unfolding first_failure_def failing_report_fields by simp
qed

lemma save_paper_failed_mono:
  "save_paper env k paper_data (s, d, f, st) = (s', d', f', st') \<Longrightarrow> f \<le> f'"
  by (auto simp: save_paper_def split: option.splits sum.splits)

lemma save_papers_failed_mono:
  "save_papers env k rs (s, d, f, st) = (s', d', f', st') \<Longrightarrow> f \<le> f'"
proof (induction rs arbitrary: k s d f st)
  case Nil
  then show ?case by simp
next
  case (Cons r rs)
  obtain s1 d1 f1 st1 where st: "save_paper env k r (s, d, f, st) = (s1, d1, f1, st1)"
    by (cases "save_paper env k r (s, d, f, st)") auto
  with Cons.prems have "save_papers env (Suc k) rs (s1, d1, f1, st1) = (s', d', f', st')" by simp
  from Cons.IH [OF this] save_paper_failed_mono [OF st] show ?case by simp
qed

lemma save_papers_all_stored:
  assumes "distinct (map paper_id (papers st))"
      and "save_papers env k rs (s, d, f, st) = (s', d', f', st')"
      and "f' = f"
  shows "set (map pc_paper_id rs) \<subseteq> stored_ids st'"
  using assms
proof (induction rs arbitrary: k s d f st)
  case Nil
  then show ?case by simp
next
  case (Cons r rs)
  obtain s1 d1 f1 st1 where st: "save_paper env k r (s, d, f, st) = (s1, d1, f1, st1)"
    by (cases "save_paper env k r (s, d, f, st)") auto
  with Cons.prems have rest: "save_papers env (Suc k) rs (s1, d1, f1, st1) = (s', d', f', st')" by simp
  from save_paper_failed_mono [OF st] save_papers_failed_mono [OF rest] Cons.prems(3)
  have f1: "f1 = f" "f' = f1" by simp_all
  from st f1(1) save_paper_step [OF Cons.prems(1), of env k r s d f]
  have c: "(st1 = st \<and> pc_paper_id r \<in> stored_ids st)
         \<or> (st1 = add_paper st r \<and> pc_paper_id r \<notin> stored_ids st)"
    by (auto split: if_splits)
  then have d1: "distinct (map paper_id (papers st1))"
    using Cons.prems(1) by (auto simp: add_paper_def new_paper_def stored_ids_def)
  from c have m: "pc_paper_id r \<in> stored_ids st1" by auto
  from save_papers_inv [OF d1 rest] m have "pc_paper_id r \<in> stored_ids st'" by auto
  with Cons.IH [OF d1 rest f1(2)] show ?case by simp
qed

lemma save_paper_duplicate:
  assumes "distinct (map paper_id (papers st))" "pc_paper_id r \<in> stored_ids st"
      and "db_raises env (ExistsQuery k) = None"
  shows "save_paper env k r (s, d, f, st) = (s, Suc d, f, st)"
  using save_paper_step [OF assms(1), of env k r s d f] assms(2,3) by simp

lemma save_paper_flush_failure:
  assumes "db_raises env (ExistsQuery k) = None" "pc_paper_id r \<notin> stored_ids st"
      and "db_raises env (FlushNewPaper k) = Some e"
  shows "save_paper env k r (s, d, f, st) = (s, d, Suc f, st)"
proof -
  from assms(2) have "find_by_paper_id st (pc_paper_id r) = []"
    by (simp add: find_by_paper_id_Nil)
  with assms(1,3) show ?thesis by (simp add: save_paper_def)
qed

lemma crawl_run:
  assumes "crawl_huggingface_papers env cfg date limit = Inr fetched"
      and "db_raises env CommitIngest = None"
      and "save_papers env 0 fetched (0, 0, 0, st) = (s, d, f, st')"
  shows "crawl_and_save_papers env cfg ''huggingface'' date limit st =
     (Inr \<lparr>total_crawled = length fetched, saved = s, duplicates = d, crawl_failed = f\<rparr>, st')"
  using assms by (simp add: crawl_and_save_papers_def)

lemma abc_crawl:
  assumes "retry_applies env"
      and "client_get env (fetch_url None) 1 = Inr text" "parse_papers_page env text = abc_records"
  shows "crawl_huggingface_papers env sample_settings None None = Inr abc_records"
proof -
  have "fetch_daily_papers env sample_settings None = (Inr abc_records, 1)"
    unfolding fetch_daily_papers_def
    using assms(1) by (rule async_retry_ok) (simp only: assms sum.case)
  then show ?thesis by (simp add: crawl_huggingface_papers_def)
qed

lemma abc_env_fields:
  "client_get abc_env url k = Inr ''<html></html>''"
  "parse_papers_page abc_env text = abc_records"
  "db_raises abc_env x = None"
  "retry_applies abc_env"
  by (simp_all add: abc_env_def sample_env_def retry_applies_def bind_call_def)

lemma abc_flush_b_fails_env_fields:
  "client_get abc_flush_b_fails_env url k = Inr ''<html></html>''"
  "parse_papers_page abc_flush_b_fails_env text = abc_records"
  "db_raises abc_flush_b_fails_env x = (if x = FlushNewPaper 1 then Some (DBError ''value too long'') else None)"
  "retry_applies abc_flush_b_fails_env"
  by (simp_all add: abc_flush_b_fails_env_def abc_env_def sample_env_def retry_applies_def bind_call_def)

lemma a_only_db_ids:
  "distinct (map paper_id (papers a_only_db))"
  "stored_ids a_only_db = {''arxiv-A''}"
  by (simp_all add: a_only_db_def make_paper_def stored_ids_def)

lemma abc_records_ids:
  "map pc_paper_id abc_records = [''arxiv-A'', ''arxiv-B'', ''arxiv-C'']"
  "length abc_records = 3"
  by (simp_all add: abc_records_def make_record_def)

lemma paper_raises_iff:
  assumes i: "i < length (papers st)"
  shows "paper_raises env cfg provider st i \<longleftrightarrow>
     (db_raises env (FlushProcessing i) \<noteq> None \<or> first_failure env cfg i provider st \<noteq> None)"
proof (cases "db_raises env (FlushProcessing i)")
  case (Some e)
  then show ?thesis
    by (simp add: paper_raises_def generate_single_report_def Let_def)
next
  case None
  note s = generate_single_report_status [OF i None, of cfg provider]
  show ?thesis
  proof (cases "first_failure env cfg i provider st")
    case ff: None
    with s obtain r where "fst (generate_single_report env cfg i provider st) = Inr r" by blast
    with None ff show ?thesis by (simp add: paper_raises_def)
  next
    case ff: (Some e)
    with s have "fst (generate_single_report env cfg i provider st) =
        Inl (case db_raises env (FlushFailed i) of None \<Rightarrow> e | Some e' \<Rightarrow> e')" by blast
    with None ff show ?thesis by (simp add: paper_raises_def)
  qed
qed

lemma first_failure_local:
  assumes "papers st1 ! i = papers st ! i"
  shows "first_failure env cfg i provider st1 = first_failure env cfg i provider st"
  unfolding first_failure_def assms by (rule refl)

lemma paper_raises_local:
  assumes "i < length (papers st)" "i < length (papers st1)" "papers st1 ! i = papers st ! i"
  shows "paper_raises env cfg provider st1 i = paper_raises env cfg provider st i"
  unfolding paper_raises_iff [OF assms(1)] paper_raises_iff [OF assms(2)]
    first_failure_local [OF assms(3)] by (rule refl)

lemma try_generate_reports:
  assumes "try_generate env cfg i provider st = (r, st')"
  shows "case r of
           Inr rep \<Rightarrow> reports st' = reports st @ [rep] \<and> report_paper_id rep = pk (papers st ! i)
         | Inl e \<Rightarrow> reports st' = reports st"
  using assms
  by (auto simp: try_generate_def Let_def split: sum.splits option.splits)

lemma generate_single_report_reports:
  assumes i: "i < length (papers st)"
      and g: "generate_single_report env cfg i provider st = (r, st')"
  shows "case r of
           Inr rep \<Rightarrow> reports st' = reports st @ [rep] \<and> report_paper_id rep = pk (papers st ! i)
         | Inl e \<Rightarrow> reports st' = reports st"
proof (cases "db_raises env (FlushProcessing i)")
  case (Some e)
  with g show ?thesis by (auto simp: generate_single_report_def Let_def)
next
  case None
  obtain r2 st2 where t: "try_generate env cfg i provider (set_status i ''PROCESSING'' st) = (r2, st2)"
    by (cases "try_generate env cfg i provider (set_status i ''PROCESSING'' st)")
  note tr = try_generate_reports [OF t]
  from i have p: "pk (papers (set_status i ''PROCESSING'' st) ! i) = pk (papers st ! i)" by simp
  show ?thesis
  proof (cases r2)
    case (Inr rep)
    with g None t have "r = Inr rep" "st' = st2"
      by (simp_all add: generate_single_report_def Let_def)
    with tr Inr p show ?thesis by simp
  next
    case (Inl e)
    with g None t have "\<exists>e'. r = Inl e'" "st' = set_status i ''FAILED'' st2"
      by (auto simp: generate_single_report_def Let_def split: option.splits)
    with tr Inl show ?thesis by auto
  qed
qed

lemma generate_each_outcomes:
  assumes "distinct sel" "\<forall>i\<in>set sel. i < length (papers st)"
      and "generate_each env cfg provider sel (s, f, st) = (s', f', st')"
  shows "s' = s + length (filter (\<lambda>i. \<not> paper_raises env cfg provider st i) sel)
       \<and> f' = f + length (filter (paper_raises env cfg provider st) sel)
       \<and> (\<forall>i\<in>set sel. status (papers st' ! i) =
             (if paper_raises env cfg provider st i then ''FAILED'' else ''COMPLETED''))
       \<and> map report_paper_id (reports st') =
           map report_paper_id (reports st)
           @ map (\<lambda>i. pk (papers st ! i)) (filter (\<lambda>i. \<not> paper_raises env cfg provider st i) sel)"
  using assms
proof (induction sel arbitrary: s f st)
  case Nil
  then show ?case by simp
next
  case (Cons i rest)
  from Cons.prems have i: "i < length (papers st)" and ni: "i \<notin> set rest"
    and dr: "distinct rest" and br: "\<forall>j\<in>set rest. j < length (papers st)" by auto
  obtain r st1 where g: "generate_single_report env cfg i provider st = (r, st1)"
    by (cases "generate_single_report env cfg i provider st")
  from generate_single_report_frame [OF g]
  have fr: "length (papers st1) = length (papers st)"
    "\<forall>j. j \<noteq> i \<longrightarrow> papers st1 ! j = papers st ! j" by auto
  from g have ri: "paper_raises env cfg provider st i = isl r"
    by (simp add: paper_raises_def)
  note rep = generate_single_report_reports [OF i g]
  define st2 where "st2 = (if isl r then set_status i ''FAILED'' st1 else st1)"
  define s2 where "s2 = (if isl r then s else Suc s)"
  define f2 where "f2 = (if isl r then Suc f else f)"
  from g Cons.prems(3) have e: "generate_each env cfg provider rest (s2, f2, st2) = (s', f', st')"
    by (cases r) (simp_all add: st2_def s2_def f2_def)
  have len2: "length (papers st2) = length (papers st)" using fr by (simp add: st2_def)
  have rows2: "\<forall>j. j \<noteq> i \<longrightarrow> papers st2 ! j = papers st ! j" using fr by (simp add: st2_def)
  from br len2 have br2: "\<forall>j\<in>set rest. j < length (papers st2)" by simp
  note ih = Cons.IH [OF dr br2 e]
  note inv = generate_each_inv [OF dr br2 e]
  have loc: "\<And>j. j \<in> set rest \<Longrightarrow>
      paper_raises env cfg provider st2 j = paper_raises env cfg provider st j
      \<and> pk (papers st2 ! j) = pk (papers st ! j)"
  proof -
    fix j assume j: "j \<in> set rest"
    with ni have ne: "j \<noteq> i" by auto
    with rows2 have same: "papers st2 ! j = papers st ! j" by simp
    from j br br2 have "j < length (papers st)" "j < length (papers st2)" by simp_all
    from paper_raises_local [OF this same] same
    show "paper_raises env cfg provider st2 j = paper_raises env cfg provider st j
      \<and> pk (papers st2 ! j) = pk (papers st ! j)" by simp
  qed
  have fil1: "filter (paper_raises env cfg provider st2) rest = filter (paper_raises env cfg provider st) rest"
    by (rule filter_cong [OF refl]) (simp add: loc)
  have fil2: "filter (\<lambda>j. \<not> paper_raises env cfg provider st2 j) rest
      = filter (\<lambda>j. \<not> paper_raises env cfg provider st j) rest"
    by (rule filter_cong [OF refl]) (simp add: loc)
  have mp: "map (\<lambda>j. pk (papers st2 ! j)) (filter (\<lambda>j. \<not> paper_raises env cfg provider st j) rest)
      = map (\<lambda>j. pk (papers st ! j)) (filter (\<lambda>j. \<not> paper_raises env cfg provider st j) rest)"
    by (rule map_cong [OF refl]) (simp add: loc)
  from inv ni have rowi: "papers st' ! i = papers st2 ! i" by blast
  show ?case
  proof (cases r)
    case (Inl err)
    with ri have raised: "paper_raises env cfg provider st i" by simp
    from Inl have v: "st2 = set_status i ''FAILED'' st1" "s2 = s" "f2 = Suc f"
      by (simp_all add: st2_def s2_def f2_def)
    from Inl rep have r2: "reports st2 = reports st" by (simp add: v)
    from i fr v have "status (papers st2 ! i) = ''FAILED''" by simp
    with rowi have sti: "status (papers st' ! i) = ''FAILED''" by simp
    from ih have a: "s' = s2 + length (filter (\<lambda>j. \<not> paper_raises env cfg provider st j) rest)"
      and b: "f' = f2 + length (filter (paper_raises env cfg provider st) rest)"
      and c: "\<forall>j\<in>set rest. status (papers st' ! j) =
             (if paper_raises env cfg provider st j then ''FAILED'' else ''COMPLETED'')"
      and d: "map report_paper_id (reports st') = map report_paper_id (reports st2)
           @ map (\<lambda>j. pk (papers st ! j)) (filter (\<lambda>j. \<not> paper_raises env cfg provider st j) rest)"
      unfolding fil1 fil2 mp by (simp_all add: loc)
    from a b c d raised sti v r2 show ?thesis by simp
  next
    case (Inr new_rep)
    with ri have fine: "\<not> paper_raises env cfg provider st i" by simp
    from Inr have v: "st2 = st1" "s2 = Suc s" "f2 = f"
      by (simp_all add: st2_def s2_def f2_def)
    from Inr rep have r2: "map report_paper_id (reports st2)
        = map report_paper_id (reports st) @ [pk (papers st ! i)]" by (simp add: v)
    from generate_single_report_completed [OF i] g Inr v
    have "status (papers st2 ! i) = ''COMPLETED''" by simp
    with rowi have sti: "status (papers st' ! i) = ''COMPLETED''" by simp
    from ih have a: "s' = s2 + length (filter (\<lambda>j. \<not> paper_raises env cfg provider st j) rest)"
      and b: "f' = f2 + length (filter (paper_raises env cfg provider st) rest)"
      and c: "\<forall>j\<in>set rest. status (papers st' ! j) =
             (if paper_raises env cfg provider st j then ''FAILED'' else ''COMPLETED'')"
      and d: "map report_paper_id (reports st') = map report_paper_id (reports st2)
           @ map (\<lambda>j. pk (papers st ! j)) (filter (\<lambda>j. \<not> paper_raises env cfg provider st j) rest)"
      unfolding fil1 fil2 mp by (simp_all add: loc)
    from a b c d fine sti v r2 show ?thesis by simp
  qed
qed

lemma batch_outcomes:
  assumes sel: "select_new_papers env limit st = Inr sel"
      and com: "db_raises env CommitBatch = None"
  shows "\<exists>res st'. generate_reports_batch env cfg provider limit st = (Inr res, st')
       \<and> total_processed res = length sel
       \<and> success res + failed res = total_processed res
       \<and> failed res = length (filter (paper_raises env cfg provider st) sel)
       \<and> success res = length (filter (\<lambda>i. \<not> paper_raises env cfg provider st i) sel)
       \<and> (\<forall>i\<in>set sel. status (papers st' ! i) =
             (if paper_raises env cfg provider st i then ''FAILED'' else ''COMPLETED''))
       \<and> map report_paper_id (reports st') =
           map report_paper_id (reports st)
           @ map (\<lambda>i. pk (papers st ! i)) (filter (\<lambda>i. \<not> paper_raises env cfg provider st i) sel)
       \<and> (\<forall>i\<in>set sel. status (papers st' ! i) = ''COMPLETED'' \<or> status (papers st' ! i) = ''FAILED'')
       \<and> success res = length (filter (\<lambda>i. status (papers st' ! i) = ''COMPLETED'') sel)
       \<and> failed res = length (filter (\<lambda>i. status (papers st' ! i) = ''FAILED'') sel)"
proof (cases "sel = []")
  case True
  with sel show ?thesis by (simp add: generate_reports_batch_def)
next
  case False
  note p = select_new_papers_props(1,2) [OF sel]
  from p(2) have b: "\<forall>i\<in>set sel. i < length (papers st)"
    by (auto simp: new_papers_props)
  obtain s f st1 where g: "generate_each env cfg provider sel (0, 0, st) = (s, f, st1)"
    by (cases "generate_each env cfg provider sel (0, 0, st)") auto
  note out = generate_each_outcomes [OF p(1) b g]
  have r: "generate_reports_batch env cfg provider limit st
      = (Inr \<lparr>total_processed = length sel, success = s, failed = f\<rparr>, st1)"
    using sel com g False by (simp add: generate_reports_batch_def)
  from batch_counts [OF sel com, of cfg provider] r
  have old: "s + f = length sel"
    "\<forall>i\<in>set sel. status (papers st1 ! i) = ''COMPLETED'' \<or> status (papers st1 ! i) = ''FAILED''"
    "s = length (filter (\<lambda>i. status (papers st1 ! i) = ''COMPLETED'') sel)"
    "f = length (filter (\<lambda>i. status (papers st1 ! i) = ''FAILED'') sel)"
    by auto
  from out have o: "s = length (filter (\<lambda>i. \<not> paper_raises env cfg provider st i) sel)"
    "f = length (filter (paper_raises env cfg provider st) sel)"
    "\<forall>i\<in>set sel. status (papers st1 ! i) =
             (if paper_raises env cfg provider st i then ''FAILED'' else ''COMPLETED'')"
    "map report_paper_id (reports st1) =
           map report_paper_id (reports st)
           @ map (\<lambda>i. pk (papers st ! i)) (filter (\<lambda>i. \<not> paper_raises env cfg provider st i) sel)"
    by simp_all
  show ?thesis
    unfolding r using old o
    by (intro exI [of _ "\<lparr>total_processed = length sel, success = s, failed = f\<rparr>"] exI [of _ st1])
       simp
qed

lemma llm_down_for_1_env_fields:
  "ainvoke llm_down_for_1_env 1 k = Inl (APIError ''Request timed out'')"
  "ainvoke llm_down_for_1_env 2 k = Inr \<lparr>content = tagged_block sample_report_text, usage = []\<rparr>"
  "loads llm_down_for_1_env = demo_loads"
  "elapsed llm_down_for_1_env i k = 3"
  "llm_init llm_down_for_1_env i = None"
  "before_sleep_log llm_down_for_1_env = before_sleep_log sample_env"
  "create_markdown_report llm_down_for_1_env i p c m = Inr ''reports/2024/01/report.md''"
  "db_raises llm_down_for_1_env x = None"
  by (simp_all add: llm_down_for_1_env_def sample_env_def)

lemma sample_db_rows:
  "length (papers sample_db) = 3"
  "pk (papers sample_db ! 2) = 3"
  "reports sample_db = []"
  by (simp_all add: sample_db_def make_paper_def)

lemma llm_down_for_1_raises:
  "paper_raises llm_down_for_1_env sample_settings None sample_db 1"
  "\<not> paper_raises llm_down_for_1_env sample_settings None sample_db 2"
proof -
  have g1: "generate_paper_report llm_down_for_1_env sample_settings 1 None
      = Inl (APIError ''Request timed out'')"
    by (rule generate_paper_report_down) (rule llm_down_for_1_env_fields)+
  have g2: "generate_paper_report llm_down_for_1_env sample_settings 2 None = Inr sample_result"
    by (rule sample_reply_report) (rule llm_down_for_1_env_fields)+
  have f1: "first_failure llm_down_for_1_env sample_settings 1 None sample_db
      = Some (APIError ''Request timed out'')"
    using g1 by (simp add: first_failure_def)
  have f2: "first_failure llm_down_for_1_env sample_settings 2 None sample_db = None"
    unfolding first_failure_def g2 llm_down_for_1_env_fields by simp
  have l: "1 < length (papers sample_db)" "2 < length (papers sample_db)"
    by (simp_all add: sample_db_rows)
  show "paper_raises llm_down_for_1_env sample_settings None sample_db 1"
    unfolding paper_raises_iff [OF l(1)] using f1 by simp
  show "\<not> paper_raises llm_down_for_1_env sample_settings None sample_db 2"
    unfolding paper_raises_iff [OF l(2)] using f2 by (simp add: llm_down_for_1_env_fields)
qed

section \<open>Validation of the report content\<close>

text \<open>
  Claim C7. On a decoded object, \<open>_validate_report_content\<close> raises a \<open>ValueError\<close>
  whose message lists exactly the required keys that the object lacks, in the order of
  the seven, whenever one is lacking; it raises a \<open>ValueError\<close> whenever a key of the
  object carries a value that is not a non-empty string; and when it returns, each of the
  seven required keys is present with a non-empty string.
\<close>

theorem validate_report_content_required:
  "(missing_required decoded \<noteq> [] \<longrightarrow>
      validate_report_content (JObject decoded) =
        Inl (ValueError (''Missing required fields: '' @ py_repr_list (missing_required decoded))))
   \<and> ((k, v) \<in> set decoded \<and> \<not> (\<exists>s. v = JString s \<and> s \<noteq> []) \<longrightarrow>
        (\<exists>m. validate_report_content (JObject decoded) = Inl (ValueError m)))
   \<and> (validate_report_content (JObject decoded) = Inr () \<longrightarrow>
        (\<forall>f \<in> set required_fields. \<exists>s. map_of decoded f = Some (JString s) \<and> s \<noteq> []))"
proof (intro conjI impI)
  assume "missing_required decoded \<noteq> []"
  then show "validate_report_content (JObject decoded) =
        Inl (ValueError (''Missing required fields: '' @ py_repr_list (missing_required decoded)))"
    by (simp add: missing_required_def missing_error_def Let_def)
next
  assume a: "(k, v) \<in> set decoded \<and> \<not> (\<exists>s. v = JString s \<and> s \<noteq> [])"
  have "check_items decoded \<noteq> Inr ()"
  proof
    assume "check_items decoded = Inr ()"
    then have "\<exists>s. v = JString s \<and> strip s \<noteq> []"
      using a by (auto simp: check_items_ok)
    then show False using a strip_nonempty by blast
  qed
  then have "\<exists>m. check_items decoded = Inl (ValueError m)"
    using check_items_cases [of decoded] by blast
  then show "\<exists>m. validate_report_content (JObject decoded) = Inl (ValueError m)"
    by (auto simp: Let_def missing_error_def)
next
  assume ok: "validate_report_content (JObject decoded) = Inr ()"
  then have nomiss: "filter (\<lambda>field. field \<notin> set (map fst decoded)) required_fields = []"
    and items: "check_items decoded = Inr ()"
    by (auto simp: Let_def split: if_splits)
  show "\<forall>f \<in> set required_fields. \<exists>s. map_of decoded f = Some (JString s) \<and> s \<noteq> []"
  proof
    fix f assume "f \<in> set required_fields"
    with nomiss have "f \<in> set (map fst decoded)"
      by (auto simp: filter_empty_conv)
    then obtain v where mo: "map_of decoded f = Some v"
      by (metis map_of_eq_None_iff not_Some_eq set_map)
    then have "(f, v) \<in> set decoded" by (rule map_of_SomeD)
    with items obtain s where "v = JString s" "strip s \<noteq> []"
      by (auto simp: check_items_ok)
    with mo show "\<exists>s. map_of decoded f = Some (JString s) \<and> s \<noteq> []"
      using strip_nonempty by blast
  qed
qed

text \<open>
  The theorem at three objects: the sample report without its first field, the sample
  report with an empty first field, and the sample report.
\<close>

theorem validate_report_content_required_witness:
  "validate_report_content (JObject (tl sample_report)) =
     Inl (ValueError (''Missing required fields: ['' @ q ''core_summary'' @ '']''))
   \<and> (\<exists>m. validate_report_content (JObject ((''core_summary'', JString []) # tl sample_report))
          = Inl (ValueError m))
   \<and> validate_report_content (JObject sample_report) = Inr ()
   \<and> (\<exists>s. map_of sample_report ''limitations'' = Some (JString s) \<and> s \<noteq> [])"
proof -
  have m: "missing_required (tl sample_report) = [''core_summary'']"
    by (simp add: missing_required_def sample_report_def required_fields_def)
  have r: "py_repr_list [''core_summary''] = ''['' @ q ''core_summary'' @ '']''"
    by (simp add: py_repr_list_def py_repr_str_def)
  have 1: "validate_report_content (JObject (tl sample_report)) =
     Inl (ValueError (''Missing required fields: ['' @ q ''core_summary'' @ '']''))"
    using validate_report_content_required [of "tl sample_report"] m r by simp
  have "(''core_summary'', JString []) \<in> set ((''core_summary'', JString []) # tl sample_report)
        \<and> \<not> (\<exists>s. JString [] = JString s \<and> s \<noteq> [])"
    by simp
  then have 2: "\<exists>m. validate_report_content (JObject ((''core_summary'', JString []) # tl sample_report))
          = Inl (ValueError m)"
    using validate_report_content_required
      [of "(''core_summary'', JString []) # tl sample_report" "''core_summary''" "JString []"]
    by blast
  have 3: "validate_report_content (JObject sample_report) = Inr ()"
    by (rule validate_sample)
  have l: "''limitations'' \<in> set required_fields"
    by (simp add: required_fields_def)
  have 4: "\<exists>s. map_of sample_report ''limitations'' = Some (JString s) \<and> s \<noteq> []"
    using validate_report_content_required [of sample_report] 3 l by blast
  from 1 2 3 4 show ?thesis by blast
qed

section \<open>Parsing of the LLM response\<close>

text \<open>
  Claim C8, as the code has it. For a text \<open>c\<close> in which the fence of three backquotes
  does not occur, \<open>_parse_llm_response\<close> gives the same result on \<open>c\<close> in a block tagged
  \<open>json\<close>, on \<open>c\<close> in a block without a tag and on \<open>c\<close> alone. The tagged block is the
  one that is read whenever the tagged fence does not occur before it, whatever stands
  before it (a block without a tag, for one) and after it. When the decoder fails with
  the text \<open>e\<close>, the result is the \<open>ValueError\<close> whose message ends with \<open>e\<close>.
\<close>

theorem parse_llm_response_blocks:
  "(\<not> py_in ''```'' c \<longrightarrow>
      parse_llm_response decode (tagged_block c) = parse_llm_response decode c
    \<and> parse_llm_response decode (generic_block c) = parse_llm_response decode c)
   \<and> (\<not> py_in ''```json'' pre \<and> \<not> py_in ''```'' c \<longrightarrow>
      parse_llm_response decode (pre @ tagged_block c @ post) = parse_llm_response decode c)
   \<and> (decode (json_str response) = Inl e \<longrightarrow>
      parse_llm_response decode response =
        Inl (ValueError (''Failed to parse LLM response as JSON: '' @ e)))"
proof (intro conjI impI)
  assume h: "\<not> py_in ''```'' c"
  have "json_str ([] @ tagged_block c @ []) = strip c"
    using py_in_Nil_iff h by (rule json_str_tagged_block)
  then show "parse_llm_response decode (tagged_block c) = parse_llm_response decode c"
    using h by (simp add: parse_llm_response_def json_str_bare)
  show "parse_llm_response decode (generic_block c) = parse_llm_response decode c"
    using h by (simp add: parse_llm_response_def json_str_bare json_str_generic_block)
next
  assume "\<not> py_in ''```json'' pre \<and> \<not> py_in ''```'' c"
  then show "parse_llm_response decode (pre @ tagged_block c @ post) = parse_llm_response decode c"
    by (simp add: parse_llm_response_def json_str_bare json_str_tagged_block)
next
  assume "decode (json_str response) = Inl e"
  then show "parse_llm_response decode response =
        Inl (ValueError (''Failed to parse LLM response as JSON: '' @ e))"
    by (simp add: parse_llm_response_def)
qed

text \<open>
  The theorem at the sample report, with a block without a tag before the tagged block,
  and at a response that is not JSON.
\<close>

theorem parse_llm_response_blocks_witness:
  "parse_llm_response demo_loads (tagged_block sample_report_text) = Inr (JObject sample_report)
   \<and> parse_llm_response demo_loads (generic_block sample_report_text) = Inr (JObject sample_report)
   \<and> parse_llm_response demo_loads
        (generic_block ''notes'' @ tagged_block sample_report_text @ [CHR 0x0A])
        = Inr (JObject sample_report)
   \<and> parse_llm_response demo_loads ''oops'' =
        Inl (ValueError (''Failed to parse LLM response as JSON: ''
                          @ ''Expecting value: line 1 column 1 (char 0)''))"
proof -
  have h1: "\<not> py_in ''```'' sample_report_text"
    by code_simp
  have h2: "\<not> py_in ''```json'' (generic_block ''notes'')"
    by code_simp
  have h3: "demo_loads (json_str ''oops'') = Inl ''Expecting value: line 1 column 1 (char 0)''"
    by code_simp
  have bare: "parse_llm_response demo_loads sample_report_text = Inr (JObject sample_report)"
    by code_simp
  note t = parse_llm_response_blocks
    [of sample_report_text demo_loads "generic_block ''notes''" "[CHR 0x0A]" "''oops''"
        "''Expecting value: line 1 column 1 (char 0)''"]
  from t h1 have a: "parse_llm_response demo_loads (tagged_block sample_report_text)
      = parse_llm_response demo_loads sample_report_text"
    and b: "parse_llm_response demo_loads (generic_block sample_report_text)
      = parse_llm_response demo_loads sample_report_text"
    by blast+
  from t h1 h2 have c: "parse_llm_response demo_loads
        (generic_block ''notes'' @ tagged_block sample_report_text @ [CHR 0x0A])
      = parse_llm_response demo_loads sample_report_text"
    by blast
  from t h3 have d: "parse_llm_response demo_loads ''oops'' =
        Inl (ValueError (''Failed to parse LLM response as JSON: ''
                          @ ''Expecting value: line 1 column 1 (char 0)''))"
    by blast
  from a b c d bare show ?thesis by (simp only: simp_thms)
qed

text \<open>
  The claim as stated fails at a content in which the fence occurs: alone, the object
  \<open>fenced_content\<close> is cut at its inner fences and decodes to the empty object, and in
  a tagged block it is cut at the first inner fence and does not decode.
\<close>

theorem parse_llm_response_fence_in_content:
  "parse_llm_response demo_loads fenced_content = Inr (JObject [])
   \<and> parse_llm_response demo_loads (tagged_block fenced_content) =
       Inl (ValueError (''Failed to parse LLM response as JSON: ''
                         @ ''Unterminated string starting at: line 1 column 7 (char 6)''))
   \<and> parse_llm_response demo_loads (generic_block fenced_content) =
       Inl (ValueError (''Failed to parse LLM response as JSON: ''
                         @ ''Unterminated string starting at: line 1 column 7 (char 6)''))"
  by code_simp

section \<open>What is retried\<close>

text \<open>
  Claim C3 says that retry is applied around the network calls of the fetcher and of
  the generator. The code does otherwise. \<open>async_retry\<close> builds its retry with
  \<open>before_sleep_log(logger, logging_level="WARNING")\<close>; when the \<open>before_sleep_log\<close> of
  the retry library has no parameter named \<open>logging_level\<close>, as in tenacity, whose
  parameters are \<open>logger\<close>, \<open>log_level\<close> and \<open>exc_info\<close>, decorating a function raises the
  \<open>TypeError\<close> of the unexpected keyword. So \<open>generate_report\<close> and \<open>fetch_daily_papers\<close>
  make no attempt at all: the LLM and the HTTP client are never called, nothing is
  retried, and the crawl and the generation of a paper end with that \<open>TypeError\<close>.
\<close>

theorem async_retry_decoration_raises:
  assumes "''logging_level'' \<notin> set (map fst (before_sleep_log env))"
  shows "generate_report env cfg provider i =
           (Inl (TypeError (''before_sleep_log() got an unexpected keyword argument '' @ q ''logging_level'')), 0)
       \<and> fetch_daily_papers env cfg date =
           (Inl (TypeError (''before_sleep_log() got an unexpected keyword argument '' @ q ''logging_level'')), 0)
       \<and> crawl_huggingface_papers env cfg date limit =
           Inl (TypeError (''before_sleep_log() got an unexpected keyword argument '' @ q ''logging_level''))"
proof -
  from assms have b: "bind_call ''before_sleep_log'' (before_sleep_log env) 1 [''logging_level'']
      = Some (TypeError (''before_sleep_log() got an unexpected keyword argument '' @ q ''logging_level''))"
    by (simp add: bind_call_def)
  have g: "generate_report env cfg provider i =
           (Inl (TypeError (''before_sleep_log() got an unexpected keyword argument '' @ q ''logging_level'')), 0)"
    unfolding generate_report_def by (rule async_retry_raises [OF b])
  have f: "fetch_daily_papers env cfg date =
           (Inl (TypeError (''before_sleep_log() got an unexpected keyword argument '' @ q ''logging_level'')), 0)"
    unfolding fetch_daily_papers_def by (rule async_retry_raises [OF b])
  have c: "crawl_huggingface_papers env cfg date limit =
           Inl (TypeError (''before_sleep_log() got an unexpected keyword argument '' @ q ''logging_level''))"
    unfolding crawl_huggingface_papers_def f by simp
  from g f c show ?thesis by blast
qed

text \<open>
  The theorem at tenacity's \<open>before_sleep_log\<close>, with an LLM and a site that would
  answer at the first call.
\<close>

theorem async_retry_decoration_raises_witness:
  "ainvoke tenacity_env 0 1 = Inr \<lparr>content = tagged_block sample_report_text, usage = []\<rparr>
   \<and> generate_report tenacity_env sample_settings ''openai'' 0 =
       (Inl (TypeError (''before_sleep_log() got an unexpected keyword argument '' @ q ''logging_level'')), 0)
   \<and> fetch_daily_papers tenacity_env sample_settings None =
       (Inl (TypeError (''before_sleep_log() got an unexpected keyword argument '' @ q ''logging_level'')), 0)
   \<and> crawl_huggingface_papers tenacity_env sample_settings None None =
       Inl (TypeError (''before_sleep_log() got an unexpected keyword argument '' @ q ''logging_level''))"
proof -
  have h: "''logging_level'' \<notin> set (map fst (before_sleep_log tenacity_env))"
    by (simp add: tenacity_env_def tenacity_before_sleep_log_def)
  have a: "ainvoke tenacity_env 0 1 = Inr \<lparr>content = tagged_block sample_report_text, usage = []\<rparr>"
    by (simp add: tenacity_env_def sample_env_def)
  from async_retry_decoration_raises [OF h, of sample_settings "''openai''" 0 None None] a
  show ?thesis by blast
qed

section \<open>The status of a paper after its analysis\<close>

text \<open>
  Claim C1, as the code has it. Let the paper be a row of the session, and let the
  flush that publishes PROCESSING return. When the LLM generation, the document write
  and the persistence of the report all succeed, \<open>_generate_single_report\<close> returns
  the report and the status is COMPLETED. When one of them raises, the status is FAILED
  and the call raises: the original error when the flush inside the handler returns,
  and the error of that flush otherwise. So the status is COMPLETED exactly when the
  call returns and FAILED exactly when it raises, and it is never PROCESSING.
\<close>

theorem generate_single_report_final_status:
  assumes i: "i < length (papers st)" and fl: "db_raises env (FlushProcessing i) = None"
  shows "(first_failure env cfg i provider st = None \<longrightarrow>
            (\<exists>r. fst (generate_single_report env cfg i provider st) = Inr r)
          \<and> status (papers (snd (generate_single_report env cfg i provider st)) ! i) = ''COMPLETED'')
       \<and> (\<forall>e. first_failure env cfg i provider st = Some e \<longrightarrow>
            status (papers (snd (generate_single_report env cfg i provider st)) ! i) = ''FAILED''
          \<and> (\<exists>e'. fst (generate_single_report env cfg i provider st) = Inl e')
          \<and> (db_raises env (FlushFailed i) = None \<longrightarrow>
               fst (generate_single_report env cfg i provider st) = Inl e)
          \<and> fst (generate_single_report env cfg i provider st)
              = Inl (case db_raises env (FlushFailed i) of None \<Rightarrow> e | Some e' \<Rightarrow> e'))
       \<and> (\<forall>r. fst (generate_single_report env cfg i provider st) = Inr r \<longrightarrow>
            status (papers (snd (generate_single_report env cfg i provider st)) ! i) = ''COMPLETED'')
       \<and> (\<forall>e. fst (generate_single_report env cfg i provider st) = Inl e \<longrightarrow>
            status (papers (snd (generate_single_report env cfg i provider st)) ! i) = ''FAILED'')
       \<and> status (papers (snd (generate_single_report env cfg i provider st)) ! i) \<noteq> ''PROCESSING''"
proof (cases "first_failure env cfg i provider st")
  case None
  with generate_single_report_status [OF i fl, of cfg provider]
  show ?thesis by auto
next
  case (Some e)
  with generate_single_report_status [OF i fl, of cfg provider]
  show ?thesis by (auto split: option.splits)
qed

text \<open>The theorem at one NEW paper, with nothing failing and with the LLM down.\<close>

theorem generate_single_report_final_status_witness:
  "(\<exists>r. fst (generate_single_report sample_env sample_settings 0 None one_paper_db) = Inr r)
   \<and> status (papers (snd (generate_single_report sample_env sample_settings 0 None one_paper_db)) ! 0)
       = ''COMPLETED''
   \<and> fst (generate_single_report llm_down_env sample_settings 0 None one_paper_db)
       = Inl (APIError ''Request timed out'')
   \<and> status (papers (snd (generate_single_report llm_down_env sample_settings 0 None one_paper_db)) ! 0)
       = ''FAILED''"
proof -
  have i: "0 < length (papers one_paper_db)" by (simp add: one_paper_db_rows)
  have f1: "db_raises sample_env (FlushProcessing 0) = None" by (rule sample_env_fields)
  have f2: "db_raises llm_down_env (FlushProcessing 0) = None" by (rule llm_down_env_fields)
  have h2: "db_raises llm_down_env (FlushFailed 0) = None" by (rule llm_down_env_fields)
  note ok = generate_single_report_final_status [OF i f1, of sample_settings None]
  note down = generate_single_report_final_status [OF i f2, of sample_settings None]
  from ok first_failure_sample [of 0 one_paper_db]
  have a: "(\<exists>r. fst (generate_single_report sample_env sample_settings 0 None one_paper_db) = Inr r)
     \<and> status (papers (snd (generate_single_report sample_env sample_settings 0 None one_paper_db)) ! 0)
         = ''COMPLETED''"
    by blast
  from down first_failure_down [of 0 one_paper_db] h2
  have b: "fst (generate_single_report llm_down_env sample_settings 0 None one_paper_db)
       = Inl (APIError ''Request timed out'')
     \<and> status (papers (snd (generate_single_report llm_down_env sample_settings 0 None one_paper_db)) ! 0)
         = ''FAILED''"
    by blast
  from a b show ?thesis by blast
qed

text \<open>
  The claim as stated fails. When the flush that publishes PROCESSING raises, the call
  raises with the status left at PROCESSING. And when the persistence of the report
  raises and the flush inside the handler raises too, the error that leaves the call is
  the second one, not the original.
\<close>

theorem generate_single_report_left_processing:
  "generate_single_report (failing_at (FlushProcessing 0)) sample_settings 0 None one_paper_db
     = (Inl (DBError ''connection lost''), set_status 0 ''PROCESSING'' one_paper_db)
   \<and> status (papers (set_status 0 ''PROCESSING'' one_paper_db) ! 0) = ''PROCESSING''
   \<and> first_failure failing_report_and_handler sample_settings 0 None one_paper_db
       = Some (DBError ''insert failed'')
   \<and> fst (generate_single_report failing_report_and_handler sample_settings 0 None one_paper_db)
       = Inl (DBError ''transaction rolled back'')"
proof -
  have a: "generate_single_report (failing_at (FlushProcessing 0)) sample_settings 0 None one_paper_db
     = (Inl (DBError ''connection lost''), set_status 0 ''PROCESSING'' one_paper_db)"
    by (simp add: generate_single_report_def failing_at_def sample_env_def Let_def)
  have b: "status (papers (set_status 0 ''PROCESSING'' one_paper_db) ! 0) = ''PROCESSING''"
    by (simp add: one_paper_db_def)
  have i: "0 < length (papers one_paper_db)" by (simp add: one_paper_db_rows)
  from generate_single_report_status [OF i failing_report_fields(2), of sample_settings None]
    first_failure_report [of one_paper_db]
  have c: "fst (generate_single_report failing_report_and_handler sample_settings 0 None one_paper_db)
       = Inl (case db_raises failing_report_and_handler (FlushFailed 0) of
                None \<Rightarrow> DBError ''insert failed'' | Some e' \<Rightarrow> e')"
    by blast
  then have d: "fst (generate_single_report failing_report_and_handler sample_settings 0 None one_paper_db)
       = Inl (DBError ''transaction rolled back'')"
    unfolding failing_report_fields by simp
  from a b first_failure_report [of one_paper_db] d show ?thesis by blast
qed

section \<open>Batch analysis\<close>

text \<open>
  Claim C2. Let the batch query return the rows \<open>selected\<close> and let the final commit
  return. Then, whatever is raised while any of the papers is processed,
  \<open>generate_reports_batch\<close> returns its counts, and every selected paper has been
  attempted: \<open>failed\<close> is the number of selected papers whose processing by
  \<open>_generate_single_report\<close> raises and \<open>success\<close> the number of those whose processing
  returns; a paper whose processing raises ends FAILED and the others end COMPLETED; and
  the session has one more report for each paper whose processing returned, in the order
  of the selection, and none for the others. So \<open>total_processed\<close> is the number of
  selected papers and equals \<open>success + failed\<close>, and \<open>success\<close> and \<open>failed\<close> are the
  numbers of selected papers that ended COMPLETED and FAILED.
\<close>

theorem generate_reports_batch_isolation:
  assumes "select_new_papers env limit st = Inr selected"
      and "db_raises env CommitBatch = None"
  shows "\<exists>res st'. generate_reports_batch env cfg provider limit st = (Inr res, st')
       \<and> total_processed res = length selected
       \<and> success res + failed res = total_processed res
       \<and> failed res = length (filter (paper_raises env cfg provider st) selected)
       \<and> success res = length (filter (\<lambda>i. \<not> paper_raises env cfg provider st i) selected)
       \<and> (\<forall>i\<in>set selected. status (papers st' ! i) =
             (if paper_raises env cfg provider st i then ''FAILED'' else ''COMPLETED''))
       \<and> map report_paper_id (reports st') =
           map report_paper_id (reports st)
           @ map (\<lambda>i. pk (papers st ! i)) (filter (\<lambda>i. \<not> paper_raises env cfg provider st i) selected)
       \<and> (\<forall>i\<in>set selected. status (papers st' ! i) = ''COMPLETED'' \<or> status (papers st' ! i) = ''FAILED'')
       \<and> success res = length (filter (\<lambda>i. status (papers st' ! i) = ''COMPLETED'') selected)
       \<and> failed res = length (filter (\<lambda>i. status (papers st' ! i) = ''FAILED'') selected)"
  using assms by (rule batch_outcomes)

text \<open>
  The theorem at three papers of which two are NEW, with the LLM down for the first
  of the two: the first is counted as failed and ends FAILED, the second is counted as
  a success, ends COMPLETED and has its report.
\<close>

theorem generate_reports_batch_isolation_witness:
  "\<exists>res st'. generate_reports_batch llm_down_for_1_env sample_settings None None sample_db = (Inr res, st')
       \<and> total_processed res = 2
       \<and> success res = 1
       \<and> failed res = 1
       \<and> status (papers st' ! 1) = ''FAILED''
       \<and> status (papers st' ! 2) = ''COMPLETED''
       \<and> map report_paper_id (reports st') = [3]"
proof -
  have s: "select_new_papers llm_down_for_1_env None sample_db = Inr [1, 2]"
    by (simp add: select_new_papers_def new_papers_def llm_down_for_1_env_def sample_env_def
        sample_db_def make_paper_def upt_rec)
  have c: "db_raises llm_down_for_1_env CommitBatch = None"
    by (rule llm_down_for_1_env_fields)
  note r = llm_down_for_1_raises
  from generate_reports_batch_isolation [OF s c, of sample_settings None]
  obtain res st' where b:
    "generate_reports_batch llm_down_for_1_env sample_settings None None sample_db = (Inr res, st')"
    "total_processed res = length [1::nat, 2]"
    "failed res = length (filter (paper_raises llm_down_for_1_env sample_settings None sample_db) [1, 2])"
    "success res = length (filter (\<lambda>i. \<not> paper_raises llm_down_for_1_env sample_settings None sample_db i) [1, 2])"
    "\<forall>i\<in>set [1::nat, 2]. status (papers st' ! i) =
        (if paper_raises llm_down_for_1_env sample_settings None sample_db i then ''FAILED'' else ''COMPLETED'')"
    "map report_paper_id (reports st') = map report_paper_id (reports sample_db)
       @ map (\<lambda>i. pk (papers sample_db ! i))
           (filter (\<lambda>i. \<not> paper_raises llm_down_for_1_env sample_settings None sample_db i) [1, 2])"
    by blast
  from b(2) have 1: "total_processed res = 2" by simp
  from b(3) r have 2: "failed res = 1" by simp
  from b(4) r have 3: "success res = 1" by simp
  from b(5) r have 4: "status (papers st' ! 1) = ''FAILED''" "status (papers st' ! 2) = ''COMPLETED''"
    by simp_all
  from b(6) r have 5: "map report_paper_id (reports st') = [3]"
    by (simp add: sample_db_rows)
  from b(1) 1 2 3 4 5 show ?thesis by (intro exI [of _ res] exI [of _ st']) simp
qed

text \<open>
  Claim C6. The rows that the batch query returns are rows with status NEW, each once:
  all of them when there is no limit, and the first \<open>n\<close> of them under a limit
  \<open>n > 0\<close>. Whatever happens during the run, the table keeps its length and every row
  whose status is not NEW is the same row afterwards, field for field.
\<close>

theorem generate_reports_batch_frame:
  "length (papers (snd (generate_reports_batch env cfg provider limit st))) = length (papers st)
   \<and> (\<forall>i<length (papers st). status (papers st ! i) \<noteq> ''NEW'' \<longrightarrow>
        papers (snd (generate_reports_batch env cfg provider limit st)) ! i = papers st ! i)
   \<and> (select_new_papers env limit st = Inr selected \<longrightarrow>
        distinct selected
      \<and> (\<forall>i\<in>set selected. i < length (papers st) \<and> status (papers st ! i) = ''NEW'')
      \<and> (limit = None \<longrightarrow> selected = new_papers st)
      \<and> (\<forall>n. limit = Some n \<and> 0 < n \<longrightarrow>
            selected = take (nat n) (new_papers st) \<and> length selected \<le> nat n))"
proof -
  obtain r st' where b: "generate_reports_batch env cfg provider limit st = (r, st')"
    by (cases "generate_reports_batch env cfg provider limit st")
  note f = batch_frame [OF b]
  from f b have 1: "length (papers (snd (generate_reports_batch env cfg provider limit st))) = length (papers st)"
    by simp
  from f b have 2: "\<forall>i<length (papers st). status (papers st ! i) \<noteq> ''NEW'' \<longrightarrow>
        papers (snd (generate_reports_batch env cfg provider limit st)) ! i = papers st ! i"
    by simp
  have 3: "select_new_papers env limit st = Inr selected \<longrightarrow>
        distinct selected
      \<and> (\<forall>i\<in>set selected. i < length (papers st) \<and> status (papers st ! i) = ''NEW'')
      \<and> (limit = None \<longrightarrow> selected = new_papers st)
      \<and> (\<forall>n. limit = Some n \<and> 0 < n \<longrightarrow>
            selected = take (nat n) (new_papers st) \<and> length selected \<le> nat n)"
  proof
    assume s: "select_new_papers env limit st = Inr selected"
    have a: "distinct selected" by (rule select_new_papers_props(1) [OF s])
    have b: "\<forall>i\<in>set selected. i < length (papers st) \<and> status (papers st ! i) = ''NEW''"
      using select_new_papers_props(2) [OF s] by (auto simp: new_papers_props)
    have c: "limit = None \<longrightarrow> selected = new_papers st"
      using select_new_papers_props(3) [OF s] by simp
    have d: "\<forall>n. limit = Some n \<and> 0 < n \<longrightarrow>
            selected = take (nat n) (new_papers st) \<and> length selected \<le> nat n"
    proof (intro allI impI)
      fix n assume n: "limit = Some n \<and> 0 < n"
      then have e: "selected = take (nat n) (new_papers st)"
        using select_new_papers_props(4) [OF s, of n] by simp
      then show "selected = take (nat n) (new_papers st) \<and> length selected \<le> nat n" by simp
    qed
    from a b c d show "distinct selected
      \<and> (\<forall>i\<in>set selected. i < length (papers st) \<and> status (papers st ! i) = ''NEW'')
      \<and> (limit = None \<longrightarrow> selected = new_papers st)
      \<and> (\<forall>n. limit = Some n \<and> 0 < n \<longrightarrow>
            selected = take (nat n) (new_papers st) \<and> length selected \<le> nat n)"
      by blast
  qed
  from 1 2 3 show ?thesis by blast
qed

text \<open>
  The theorem at three papers of which the first is COMPLETED, and at a limit of one.
\<close>

theorem generate_reports_batch_frame_witness:
  "papers (snd (generate_reports_batch sample_env sample_settings None None sample_db)) ! 0
     = make_paper 1 ''arxiv-A'' ''COMPLETED''
   \<and> select_new_papers sample_env (Some 1) sample_db = Inr [1]
   \<and> length [1::nat] \<le> nat 1"
proof -
  have l: "0 < length (papers sample_db)" and n: "status (papers sample_db ! 0) \<noteq> ''NEW''"
    and r: "papers sample_db ! 0 = make_paper 1 ''arxiv-A'' ''COMPLETED''"
    by (simp_all add: sample_db_def make_paper_def)
  have s: "select_new_papers sample_env (Some 1) sample_db = Inr [1]"
    by (simp add: select_new_papers_def new_papers_def sample_env_def
        sample_db_def make_paper_def upt_rec)
  note t = generate_reports_batch_frame [of sample_env sample_settings None None sample_db]
  from t l n r
  have a: "papers (snd (generate_reports_batch sample_env sample_settings None None sample_db)) ! 0
     = make_paper 1 ''arxiv-A'' ''COMPLETED''"
    by simp
  from generate_reports_batch_frame
    [of sample_env sample_settings None "Some 1" sample_db "[1]"] s
  have b: "length [1::nat] \<le> nat 1" by simp
  from a s b show ?thesis by blast
qed

section \<open>Regeneration of an unknown paper\<close>

text \<open>
  Claim C9. Let no paper row carry the identifier \<open>pid\<close>, a non-empty string, and let
  the flush that creates the Task row return. When the query by identifier returns,
  \<open>regenerate_report\<close> raises the \<open>ValueError\<close> (the NotFoundError of the
  specification) with the message \<open>Paper not found: pid\<close> and changes nothing. The route
  \<open>generate_reports\<close> called with \<open>pid\<close> ends in a failure; it adds one Task row, which
  ends with status FAILED (not SUCCESS), an error text and the end time, and it leaves
  the papers and the reports as they were. When the query returns, the error text is
  the message above, and when the commit of the handler returns as well, the failure
  signalled to the caller is the \<open>HTTPException\<close> 500 that carries it.
\<close>

theorem regenerate_unknown_paper:
  assumes pid: "pid \<noteq> []" and unknown: "pid \<notin> stored_ids st"
      and ft: "db_raises env FlushTask = None"
  shows "(db_raises env SelectByPaperId = None \<longrightarrow>
            regenerate_report env cfg pid provider st = (Inl (ValueError (''Paper not found: '' @ pid)), st))
       \<and> (case generate_reports env cfg
                  \<lparr>req_paper_id = Some pid, req_llm_provider = provider, force_regenerate = force\<rparr> st of
            (res, st') \<Rightarrow>
              (\<exists>x. res = Inl x)
            \<and> tasks st' = tasks st @ [last (tasks st')]
            \<and> task_status (last (tasks st')) = ''FAILED''
            \<and> task_status (last (tasks st')) \<noteq> ''SUCCESS''
            \<and> end_time (last (tasks st')) = Some (now env)
            \<and> (\<exists>m. error_message (last (tasks st')) = Some m)
            \<and> papers st' = papers st \<and> reports st' = reports st
            \<and> (db_raises env SelectByPaperId = None \<longrightarrow>
                  error_message (last (tasks st')) = Some (''Paper not found: '' @ pid)
                \<and> (db_raises env CommitTaskFailed = None \<longrightarrow>
                     res = Inl (HTTPException 500 (''Generation failed: Paper not found: '' @ pid)))))"
proof (intro conjI impI)
  assume "db_raises env SelectByPaperId = None"
  then show "regenerate_report env cfg pid provider st = (Inl (ValueError (''Paper not found: '' @ pid)), st)"
    using regenerate_unknown [OF unknown] by simp
next
  let ?req = "\<lparr>req_paper_id = Some pid, req_llm_provider = provider, force_regenerate = force\<rparr>"
  let ?task = "\<lparr>task_pk = task_seq st, task_type = ''GENERATE_SINGLE'', task_params = ?req,
                 task_status = ''RUNNING'', trigger_type = ''MANUAL'', end_time = None,
                 result_summary = None, error_message = None\<rparr>"
  let ?st0 = "st\<lparr>tasks := tasks st @ [?task], task_seq := Suc (task_seq st)\<rparr>"
  let ?e = "case db_raises env SelectByPaperId of Some e \<Rightarrow> e
            | None \<Rightarrow> ValueError (''Paper not found: '' @ pid)"
  have u0: "pid \<notin> stored_ids ?st0" using unknown by (simp add: stored_ids_def)
  have rg: "regenerate_report env cfg pid provider ?st0 = (Inl ?e, ?st0)"
    using regenerate_unknown [OF u0] by (simp split: option.splits)
  have run: "run_generation env cfg ?req ?st0 = (Inl ?e, ?st0)"
    using pid rg by (simp add: run_generation_def)
  have gr: "generate_reports env cfg ?req st = fail_task env (length (tasks st)) ?e ?st0"
    using pid ft run by (simp add: generate_reports_def Let_def)
  obtain res st' where f: "fail_task env (length (tasks st)) ?e ?st0 = (res, st')"
    by (cases "fail_task env (length (tasks st)) ?e ?st0")
  have t: "length (tasks st) < length (tasks ?st0)" by simp
  note p = fail_task_props [OF t f]
  from p(3) have len: "length (tasks st') = Suc (length (tasks st))" by simp
  then have ne: "tasks st' \<noteq> []" by auto
  have lst: "last (tasks st') = tasks st' ! length (tasks st)"
    using len ne by (simp add: last_conv_nth)
  have pre: "take (length (tasks st)) (tasks st') = tasks st"
  proof (rule nth_equalityI)
    show "length (take (length (tasks st)) (tasks st')) = length (tasks st)" using len by simp
  next
    fix j assume "j < length (take (length (tasks st)) (tasks st'))"
    then have j: "j < length (tasks st)" by simp
    with p(4) have "tasks st' ! j = tasks ?st0 ! j" by simp
    with j show "take (length (tasks st)) (tasks st') ! j = tasks st ! j"
      by (simp add: nth_append)
  qed
  have app: "tasks st' = tasks st @ [last (tasks st')]"
  proof -
    have "tasks st' = take (length (tasks st)) (tasks st') @ drop (length (tasks st)) (tasks st')"
      by simp
    moreover have "drop (length (tasks st)) (tasks st') = [last (tasks st')]"
      using len ne by (metis append_butlast_last_id append_eq_conv_conj length_butlast diff_Suc_1)
    ultimately show ?thesis using pre by simp
  qed
  have msg: "db_raises env SelectByPaperId = None \<Longrightarrow> str_error ?e = ''Paper not found: '' @ pid"
    by simp
  show "case generate_reports env cfg ?req st of
            (res, st') \<Rightarrow>
              (\<exists>x. res = Inl x)
            \<and> tasks st' = tasks st @ [last (tasks st')]
            \<and> task_status (last (tasks st')) = ''FAILED''
            \<and> task_status (last (tasks st')) \<noteq> ''SUCCESS''
            \<and> end_time (last (tasks st')) = Some (now env)
            \<and> (\<exists>m. error_message (last (tasks st')) = Some m)
            \<and> papers st' = papers st \<and> reports st' = reports st
            \<and> (db_raises env SelectByPaperId = None \<longrightarrow>
                  error_message (last (tasks st')) = Some (''Paper not found: '' @ pid)
                \<and> (db_raises env CommitTaskFailed = None \<longrightarrow>
                     res = Inl (HTTPException 500 (''Generation failed: Paper not found: '' @ pid))))"
    unfolding gr f using p app lst msg by (auto simp del: str_error.simps)
qed

text \<open>The theorem at the identifier \<open>zzz\<close>, on the sample store.\<close>

theorem regenerate_unknown_paper_witness:
  "regenerate_report sample_env sample_settings ''zzz'' None sample_db
     = (Inl (ValueError ''Paper not found: zzz''), sample_db)
   \<and> fst (generate_reports sample_env sample_settings
            \<lparr>req_paper_id = Some ''zzz'', req_llm_provider = None, force_regenerate = False\<rparr> sample_db)
       = Inl (HTTPException 500 ''Generation failed: Paper not found: zzz'')
   \<and> task_status (last (tasks (snd (generate_reports sample_env sample_settings
            \<lparr>req_paper_id = Some ''zzz'', req_llm_provider = None, force_regenerate = False\<rparr> sample_db))))
       = ''FAILED''"
proof -
  have p: "''zzz'' \<noteq> []" by simp
  have u: "''zzz'' \<notin> stored_ids sample_db"
    by (simp add: stored_ids_def sample_db_def make_paper_def)
  note t = regenerate_unknown_paper [OF p u sample_env_fields(2), of sample_settings None False]
  from t sample_env_fields(2) [of SelectByPaperId]
  have a: "regenerate_report sample_env sample_settings ''zzz'' None sample_db
     = (Inl (ValueError (''Paper not found: '' @ ''zzz'')), sample_db)"
    by blast
  obtain res st' where g: "generate_reports sample_env sample_settings
            \<lparr>req_paper_id = Some ''zzz'', req_llm_provider = None, force_regenerate = False\<rparr> sample_db
       = (res, st')"
    by (cases "generate_reports sample_env sample_settings
            \<lparr>req_paper_id = Some ''zzz'', req_llm_provider = None, force_regenerate = False\<rparr> sample_db")
  from t have "case (res, st') of (res, st') \<Rightarrow>
       task_status (last (tasks st')) = ''FAILED''
     \<and> (db_raises sample_env SelectByPaperId = None \<longrightarrow>
          (db_raises sample_env CommitTaskFailed = None \<longrightarrow>
             res = Inl (HTTPException 500 (''Generation failed: Paper not found: '' @ ''zzz''))))"
    unfolding g by (simp only: case_prod_conv) blast
  with sample_env_fields(2)
  have b: "res = Inl (HTTPException 500 (''Generation failed: Paper not found: '' @ ''zzz''))"
    and c: "task_status (last (tasks st')) = ''FAILED''"
    by simp_all
  from a b c g show ?thesis by simp
qed

section \<open>A limit of zero\<close>

text \<open>
  Claim C10. With the limit \<open>0\<close> the crawl, the ingest, the batch query and the batch
  analysis do what they do without a limit: the crawl returns every fetched record and
  the batch query returns every NEW paper.
\<close>

theorem limit_zero_is_no_limit:
  "crawl_huggingface_papers env cfg date (Some 0) = crawl_huggingface_papers env cfg date None
   \<and> crawl_and_save_papers env cfg src date (Some 0) st = crawl_and_save_papers env cfg src date None st
   \<and> select_new_papers env (Some 0) st = select_new_papers env None st
   \<and> generate_reports_batch env cfg provider (Some 0) st = generate_reports_batch env cfg provider None st
   \<and> (fst (fetch_daily_papers env cfg date) = Inr raw_papers \<longrightarrow>
        crawl_huggingface_papers env cfg date (Some 0) = Inr raw_papers)
   \<and> (db_raises env SelectNew = None \<longrightarrow> select_new_papers env (Some 0) st = Inr (new_papers st))"
proof (intro conjI impI)
  show "crawl_huggingface_papers env cfg date (Some 0) = crawl_huggingface_papers env cfg date None"
    by (rule crawl_limit_zero)
  show "crawl_and_save_papers env cfg src date (Some 0) st = crawl_and_save_papers env cfg src date None st"
    by (simp only: crawl_and_save_papers_def crawl_limit_zero)
  show "select_new_papers env (Some 0) st = select_new_papers env None st"
    by (rule select_limit_zero)
  show "generate_reports_batch env cfg provider (Some 0) st = generate_reports_batch env cfg provider None st"
    by (simp only: generate_reports_batch_def select_limit_zero)
next
  assume "fst (fetch_daily_papers env cfg date) = Inr raw_papers"
  then show "crawl_huggingface_papers env cfg date (Some 0) = Inr raw_papers"
    by (simp add: crawl_huggingface_papers_def)
next
  assume "db_raises env SelectNew = None"
  then show "select_new_papers env (Some 0) st = Inr (new_papers st)"
    by (simp add: select_new_papers_def)
qed

text \<open>The theorem at a fetch of three records and at the sample store.\<close>

theorem limit_zero_is_no_limit_witness:
  "crawl_huggingface_papers abc_env sample_settings None (Some 0) = Inr abc_records
   \<and> select_new_papers sample_env (Some 0) sample_db = Inr [1, 2]"
proof -
  have "fetch_daily_papers abc_env sample_settings None = (Inr abc_records, 1)"
    unfolding fetch_daily_papers_def
    using abc_env_fields(4) by (rule async_retry_ok) (simp only: abc_env_fields sum.case)
  then have f: "fst (fetch_daily_papers abc_env sample_settings None) = Inr abc_records" by simp
  have n: "new_papers sample_db = [1, 2]"
    by (simp add: new_papers_def sample_db_def make_paper_def upt_rec)
  from limit_zero_is_no_limit [of abc_env sample_settings None _ sample_db _ abc_records] f
  have a: "crawl_huggingface_papers abc_env sample_settings None (Some 0) = Inr abc_records"
    by blast
  from limit_zero_is_no_limit [of sample_env _ _ _ sample_db] sample_env_fields(2) [of SelectNew]
  have "select_new_papers sample_env (Some 0) sample_db = Inr (new_papers sample_db)"
    by blast
  with n a show ?thesis by simp
qed

section \<open>Ingest\<close>

text \<open>
  Claim C4. Let the store hold each identifier once (the unique constraint on
  \<open>paper_id\<close>), let the fetch return the records \<open>fetched\<close>, and let the existence
  queries and the final commit return. A record whose identifier is in the store is
  counted as a duplicate and changes neither the store nor the other counters. The run
  returns its counts; the store still holds each identifier once and its former rows
  are unchanged, the new rows standing after them; when the fetched identifiers differ
  from each other, \<open>duplicates\<close> is the number of fetched records whose identifier was
  in the store; when every fetched identifier was in the store the run changes nothing
  and counts every record as a duplicate; and a second run that fetches the same
  records after a run without failures does exactly that.
\<close>

theorem crawl_and_save_papers_idempotent:
  assumes inv: "distinct (map paper_id (papers st))"
      and crawl: "crawl_huggingface_papers env cfg date limit = Inr fetched"
      and look: "\<forall>k<length fetched. db_raises env (ExistsQuery k) = None"
      and com: "db_raises env CommitIngest = None"
  shows "(\<forall>k r s d f. pc_paper_id r \<in> stored_ids st \<and> db_raises env (ExistsQuery k) = None \<longrightarrow>
            save_paper env k r (s, d, f, st) = (s, Suc d, f, st))
       \<and> (\<exists>res st'. crawl_and_save_papers env cfg ''huggingface'' date limit st = (Inr res, st')
            \<and> distinct (map paper_id (papers st'))
            \<and> (\<exists>new. papers st' = papers st @ new)
            \<and> (distinct (map pc_paper_id fetched) \<longrightarrow>
                 duplicates res = length (filter (\<lambda>r. pc_paper_id r \<in> stored_ids st) fetched))
            \<and> (set (map pc_paper_id fetched) \<subseteq> stored_ids st \<longrightarrow>
                 st' = st
               \<and> res = \<lparr>total_crawled = length fetched, saved = 0,
                         duplicates = length fetched, crawl_failed = 0\<rparr>)
            \<and> (\<forall>env2. crawl_huggingface_papers env2 cfg date limit = Inr fetched
                     \<and> (\<forall>k<length fetched. db_raises env2 (ExistsQuery k) = None)
                     \<and> db_raises env2 CommitIngest = None
                     \<and> crawl_failed res = 0 \<longrightarrow>
                   crawl_and_save_papers env2 cfg ''huggingface'' date limit st' =
                     (Inr \<lparr>total_crawled = length fetched, saved = 0,
                           duplicates = length fetched, crawl_failed = 0\<rparr>, st')))"
proof
  show "\<forall>k r s d f. pc_paper_id r \<in> stored_ids st \<and> db_raises env (ExistsQuery k) = None \<longrightarrow>
            save_paper env k r (s, d, f, st) = (s, Suc d, f, st)"
    using save_paper_duplicate [OF inv] by blast
next
  obtain s d f st' where run: "save_papers env 0 fetched (0, 0, 0, st) = (s, d, f, st')"
    by (cases "save_papers env 0 fetched (0, 0, 0, st)") auto
  let ?res = "\<lparr>total_crawled = length fetched, saved = s, duplicates = d, crawl_failed = f\<rparr>"
  have r: "crawl_and_save_papers env cfg ''huggingface'' date limit st = (Inr ?res, st')"
    using crawl com run by (rule crawl_run)
  note i = save_papers_inv [OF inv run]
  from i have d': "distinct (map paper_id (papers st'))" and app: "\<exists>new. papers st' = papers st @ new"
    by auto
  from look have look0: "\<forall>j<length fetched. db_raises env (ExistsQuery (0 + j)) = None" by simp
  have dup: "distinct (map pc_paper_id fetched) \<longrightarrow>
      duplicates ?res = length (filter (\<lambda>r. pc_paper_id r \<in> stored_ids st) fetched)"
    using save_papers_duplicates [OF inv run look0] by simp
  have rerun: "set (map pc_paper_id fetched) \<subseteq> stored_ids st \<longrightarrow>
      st' = st \<and> ?res = \<lparr>total_crawled = length fetched, saved = 0,
                         duplicates = length fetched, crawl_failed = 0\<rparr>"
  proof
    assume "set (map pc_paper_id fetched) \<subseteq> stored_ids st"
    from save_papers_rerun [OF inv look0 this, of 0 0 0] run
    show "st' = st \<and> ?res = \<lparr>total_crawled = length fetched, saved = 0,
                         duplicates = length fetched, crawl_failed = 0\<rparr>"
      by simp
  qed
  have again: "\<forall>env2. crawl_huggingface_papers env2 cfg date limit = Inr fetched
                     \<and> (\<forall>k<length fetched. db_raises env2 (ExistsQuery k) = None)
                     \<and> db_raises env2 CommitIngest = None
                     \<and> crawl_failed ?res = 0 \<longrightarrow>
                   crawl_and_save_papers env2 cfg ''huggingface'' date limit st' =
                     (Inr \<lparr>total_crawled = length fetched, saved = 0,
                           duplicates = length fetched, crawl_failed = 0\<rparr>, st')"
  proof (intro allI impI)
    fix env2
    assume a: "crawl_huggingface_papers env2 cfg date limit = Inr fetched
                     \<and> (\<forall>k<length fetched. db_raises env2 (ExistsQuery k) = None)
                     \<and> db_raises env2 CommitIngest = None
                     \<and> crawl_failed ?res = 0"
    then have f0: "f = 0" by simp
    from save_papers_all_stored [OF inv run] f0
    have all: "set (map pc_paper_id fetched) \<subseteq> stored_ids st'" by simp
    from a have look2: "\<forall>j<length fetched. db_raises env2 (ExistsQuery (0 + j)) = None" by simp
    from save_papers_rerun [OF d' look2 all, of 0 0 0]
    have "save_papers env2 0 fetched (0, 0, 0, st') = (0, length fetched, 0, st')" by simp
    with a show "crawl_and_save_papers env2 cfg ''huggingface'' date limit st' =
                     (Inr \<lparr>total_crawled = length fetched, saved = 0,
                           duplicates = length fetched, crawl_failed = 0\<rparr>, st')"
      by (intro crawl_run) simp_all
  qed
  from r d' app dup rerun again
  show "\<exists>res st'. crawl_and_save_papers env cfg ''huggingface'' date limit st = (Inr res, st')
            \<and> distinct (map paper_id (papers st'))
            \<and> (\<exists>new. papers st' = papers st @ new)
            \<and> (distinct (map pc_paper_id fetched) \<longrightarrow>
                 duplicates res = length (filter (\<lambda>r. pc_paper_id r \<in> stored_ids st) fetched))
            \<and> (set (map pc_paper_id fetched) \<subseteq> stored_ids st \<longrightarrow>
                 st' = st
               \<and> res = \<lparr>total_crawled = length fetched, saved = 0,
                         duplicates = length fetched, crawl_failed = 0\<rparr>)
            \<and> (\<forall>env2. crawl_huggingface_papers env2 cfg date limit = Inr fetched
                     \<and> (\<forall>k<length fetched. db_raises env2 (ExistsQuery k) = None)
                     \<and> db_raises env2 CommitIngest = None
                     \<and> crawl_failed res = 0 \<longrightarrow>
                   crawl_and_save_papers env2 cfg ''huggingface'' date limit st' =
                     (Inr \<lparr>total_crawled = length fetched, saved = 0,
                           duplicates = length fetched, crawl_failed = 0\<rparr>, st'))"
    by (intro exI [of _ ?res] exI [of _ st']) (simp only: simp_thms)
qed

text \<open>
  The theorem at the scenario of the specification: the fetch returns the records A, B
  and C, and A is in the store.
\<close>

theorem crawl_and_save_papers_idempotent_witness:
  "\<exists>res st'. crawl_and_save_papers abc_env sample_settings ''huggingface'' None None a_only_db = (Inr res, st')
       \<and> distinct (map paper_id (papers st'))
       \<and> duplicates res = 1"
proof -
  have crawl: "crawl_huggingface_papers abc_env sample_settings None None = Inr abc_records"
    by (rule abc_crawl) (rule abc_env_fields)+
  have look: "\<forall>k<length abc_records. db_raises abc_env (ExistsQuery k) = None"
    by (simp add: abc_env_fields)
  have d: "distinct (map pc_paper_id abc_records)"
    by (simp add: abc_records_ids)
  have n: "length (filter (\<lambda>r. pc_paper_id r \<in> stored_ids a_only_db) abc_records) = 1"
    by (simp add: a_only_db_ids abc_records_def make_record_def)
  from crawl_and_save_papers_idempotent [OF a_only_db_ids(1) crawl look abc_env_fields(3)]
  obtain res st' where
    "crawl_and_save_papers abc_env sample_settings ''huggingface'' None None a_only_db = (Inr res, st')"
    "distinct (map paper_id (papers st'))"
    "distinct (map pc_paper_id abc_records) \<longrightarrow>
       duplicates res = length (filter (\<lambda>r. pc_paper_id r \<in> stored_ids a_only_db) abc_records)"
    by blast
  with d n show ?thesis by (intro exI [of _ res] exI [of _ st']) simp
qed

text \<open>
  Claim C5. A record that is new and whose flush raises adds one to the failed count
  and leaves the store and the other counters as they were, and the loop goes on with
  the next record. Let the fetch return the records \<open>fetched\<close> and the final commit
  return: then the run returns its counts, \<open>total_crawled\<close> is the number of fetched
  records and equals \<open>saved + duplicates + failed\<close>, and, on a store that holds each
  identifier once, every record whose own query and flush return is in the store at
  the end, whatever failed for the other records.
\<close>

theorem crawl_and_save_papers_isolation:
  assumes crawl: "crawl_huggingface_papers env cfg date limit = Inr fetched"
      and com: "db_raises env CommitIngest = None"
  shows "(\<forall>k r s d f st0 e. db_raises env (ExistsQuery k) = None \<and> pc_paper_id r \<notin> stored_ids st0
              \<and> db_raises env (FlushNewPaper k) = Some e \<longrightarrow>
            save_paper env k r (s, d, f, st0) = (s, d, Suc f, st0))
       \<and> (\<forall>k r rest acc. save_papers env k (r # rest) acc
              = save_papers env (Suc k) rest (save_paper env k r acc))
       \<and> (\<exists>res st'. crawl_and_save_papers env cfg ''huggingface'' date limit st = (Inr res, st')
            \<and> total_crawled res = length fetched
            \<and> total_crawled res = saved res + duplicates res + crawl_failed res
            \<and> (distinct (map paper_id (papers st)) \<longrightarrow>
                 (\<forall>k<length fetched. db_raises env (ExistsQuery k) = None
                       \<and> db_raises env (FlushNewPaper k) = None \<longrightarrow>
                     pc_paper_id (fetched ! k) \<in> stored_ids st')))"
proof (intro conjI)
  show "\<forall>k r s d f st0 e. db_raises env (ExistsQuery k) = None \<and> pc_paper_id r \<notin> stored_ids st0
              \<and> db_raises env (FlushNewPaper k) = Some e \<longrightarrow>
            save_paper env k r (s, d, f, st0) = (s, d, Suc f, st0)"
    using save_paper_flush_failure by blast
  show "\<forall>k r rest acc. save_papers env k (r # rest) acc
              = save_papers env (Suc k) rest (save_paper env k r acc)"
    by simp
  obtain s d f st' where run: "save_papers env 0 fetched (0, 0, 0, st) = (s, d, f, st')"
    by (cases "save_papers env 0 fetched (0, 0, 0, st)") auto
  let ?res = "\<lparr>total_crawled = length fetched, saved = s, duplicates = d, crawl_failed = f\<rparr>"
  have r: "crawl_and_save_papers env cfg ''huggingface'' date limit st = (Inr ?res, st')"
    using crawl com run by (rule crawl_run)
  from save_papers_total [OF run] have sum: "total_crawled ?res = saved ?res + duplicates ?res + crawl_failed ?res"
    by simp
  have iso: "distinct (map paper_id (papers st)) \<longrightarrow>
                 (\<forall>k<length fetched. db_raises env (ExistsQuery k) = None
                       \<and> db_raises env (FlushNewPaper k) = None \<longrightarrow>
                     pc_paper_id (fetched ! k) \<in> stored_ids st')"
  proof (intro impI allI)
    fix k
    assume inv: "distinct (map paper_id (papers st))" and k: "k < length fetched"
      and ok: "db_raises env (ExistsQuery k) = None \<and> db_raises env (FlushNewPaper k) = None"
    from ok have "db_raises env (ExistsQuery (0 + k)) = None" "db_raises env (FlushNewPaper (0 + k)) = None"
      by simp_all
    from save_papers_isolated [OF inv run k this]
    show "pc_paper_id (fetched ! k) \<in> stored_ids st'" .
  qed
  from r sum iso
  show "\<exists>res st'. crawl_and_save_papers env cfg ''huggingface'' date limit st = (Inr res, st')
            \<and> total_crawled res = length fetched
            \<and> total_crawled res = saved res + duplicates res + crawl_failed res
            \<and> (distinct (map paper_id (papers st)) \<longrightarrow>
                 (\<forall>k<length fetched. db_raises env (ExistsQuery k) = None
                       \<and> db_raises env (FlushNewPaper k) = None \<longrightarrow>
                     pc_paper_id (fetched ! k) \<in> stored_ids st'))"
    by (intro exI [of _ ?res] exI [of _ st']) simp
qed

text \<open>
  The theorem at the records A, B and C with A in the store, where the flush of B raises:
  B is counted as failed, and C, which comes after it, is in the store at the end.
\<close>

theorem crawl_and_save_papers_isolation_witness:
  "save_paper abc_flush_b_fails_env 1 (make_record ''arxiv-B'') (0, 1, 0, a_only_db) = (0, 1, 1, a_only_db)
   \<and> (\<exists>res st'. crawl_and_save_papers abc_flush_b_fails_env sample_settings ''huggingface'' None None a_only_db
                  = (Inr res, st')
        \<and> total_crawled res = 3
        \<and> saved res + duplicates res + crawl_failed res = 3
        \<and> ''arxiv-C'' \<in> stored_ids st')"
proof -
  have crawl: "crawl_huggingface_papers abc_flush_b_fails_env sample_settings None None = Inr abc_records"
    by (rule abc_crawl) (rule abc_flush_b_fails_env_fields)+
  have com: "db_raises abc_flush_b_fails_env CommitIngest = None"
    by (simp add: abc_flush_b_fails_env_fields)
  note t = crawl_and_save_papers_isolation [OF crawl com, of a_only_db]
  have q: "db_raises abc_flush_b_fails_env (ExistsQuery 1) = None"
    and b: "pc_paper_id (make_record ''arxiv-B'') \<notin> stored_ids a_only_db"
    and fb: "db_raises abc_flush_b_fails_env (FlushNewPaper 1) = Some (DBError ''value too long'')"
    by (simp_all add: abc_flush_b_fails_env_fields a_only_db_ids make_record_def)
  from conjunct1 [OF t, rule_format,
      of 1 "make_record ''arxiv-B''" a_only_db "DBError ''value too long''" 0 1 0] q b fb
  have "save_paper abc_flush_b_fails_env 1 (make_record ''arxiv-B'') (0, 1, 0, a_only_db)
      = (0, 1, Suc 0, a_only_db)"
    by blast
  then have 1: "save_paper abc_flush_b_fails_env 1 (make_record ''arxiv-B'') (0, 1, 0, a_only_db) = (0, 1, 1, a_only_db)"
    by simp
  have c: "(2::nat) < length abc_records" "db_raises abc_flush_b_fails_env (ExistsQuery 2) = None"
    "db_raises abc_flush_b_fails_env (FlushNewPaper 2) = None"
    "pc_paper_id (abc_records ! 2) = ''arxiv-C''"
    by (simp_all add: abc_flush_b_fails_env_fields abc_records_def make_record_def)
  from t obtain res st' where r:
    "crawl_and_save_papers abc_flush_b_fails_env sample_settings ''huggingface'' None None a_only_db
       = (Inr res, st')"
    "total_crawled res = length abc_records"
    "total_crawled res = saved res + duplicates res + crawl_failed res"
    "distinct (map paper_id (papers a_only_db)) \<longrightarrow>
       (\<forall>k<length abc_records. db_raises abc_flush_b_fails_env (ExistsQuery k) = None
             \<and> db_raises abc_flush_b_fails_env (FlushNewPaper k) = None \<longrightarrow>
           pc_paper_id (abc_records ! k) \<in> stored_ids st')"
    by blast
  from r(4) a_only_db_ids(1) c have "''arxiv-C'' \<in> stored_ids st'" by metis
  with r(1,2,3) have 2: "\<exists>res st'. crawl_and_save_papers abc_flush_b_fails_env sample_settings ''huggingface'' None None a_only_db
                  = (Inr res, st')
        \<and> total_crawled res = 3
        \<and> saved res + duplicates res + crawl_failed res = 3
        \<and> ''arxiv-C'' \<in> stored_ids st'"
    by (intro exI [of _ res] exI [of _ st']) (simp add: abc_records_ids)
  from 1 2 show ?thesis by blast
qed

end
